theory Spec2Isabelle
  imports Main "HOL-Library.Product_Lexorder" "HOL-Library.List_Lexorder" "HOL-Library.Char_ord"
    "HOL-Library.AList" "HOL-Library.Multiset"
begin

section \<open>Python values used by both scripts\<close>

text \<open>
  The exceptions that can occur in the modelled code. They are all subclasses of Python's
  \<open>Exception\<close>, which is what \<open>except Exception\<close> catches. Interpreter signals
  (KeyboardInterrupt, SystemExit) are not outcomes of an API call and are not modelled.
\<close>

datatype py_error = OverflowError | AttributeError | ValueError | TypeError | ApiException | OSError

subsection \<open>datetime\<close>

text \<open>
  A naive \<open>datetime\<close> is the pair of its proleptic Gregorian ordinal (\<open>toordinal()\<close>, day 1
  is 0001-01-01) and its time of day in microseconds. Python compares datetimes as these
  pairs, lexicographically, which is the order of \<open>Product_Lexorder\<close>.
\<close>

type_synonym datetime = "int \<times> nat"

definition MAXORDINAL :: int where
  "MAXORDINAL = 3652059"

text \<open>Number of days before January 1st of year \<open>y\<close> (\<open>_days_before_year\<close> of the datetime module).\<close>

definition days_before_year :: "int \<Rightarrow> int" where
  "days_before_year y = (y - 1) * 365 + (y - 1) div 4 - (y - 1) div 100 + (y - 1) div 400"

text \<open>
  The year of an ordinal, as \<open>_ord2ymd\<close> of the datetime module computes it: 400-year,
  100-year, 4-year and 1-year cycles by \<open>divmod\<close>, with the last day of a leap cycle
  belonging to the year before. Python's \<open>divmod\<close> on integers is HOL's \<open>div\<close>/\<open>mod\<close>.
\<close>

definition ord2year :: "int \<Rightarrow> int" where
  "ord2year n0 =
     (let n = n0 - 1;
          n400 = n div 146097; n = n mod 146097;
          year = n400 * 400 + 1;
          n100 = n div 36524; n = n mod 36524;
          n4 = n div 1461; n = n mod 1461;
          n1 = n div 365;
          year = year + n100 * 100 + n4 * 4 + n1
      in if n1 = 4 \<or> n100 = 4 then year - 1 else year)"

text \<open>\<open>d.year\<close>\<close>

definition year :: "datetime \<Rightarrow> int" where
  "year d = ord2year (fst d)"

text \<open>
  \<open>d - timedelta(days=n)\<close>: the ordinal moves, the time of day stays; a result outside
  \<open>datetime.min .. datetime.max\<close> raises OverflowError.
\<close>

definition sub_days :: "datetime \<Rightarrow> int \<Rightarrow> py_error + datetime" where
  "sub_days d n =
     (if 0 < fst d - n \<and> fst d - n \<le> MAXORDINAL then Inr (fst d - n, snd d)
      else Inl OverflowError)"

text \<open>
  \<open>d.strftime("%Y-%m-%d")\<close> prints the calendar date and drops the time of day. The text
  determines the ordinal and the ordinal the text, so the model passes the ordinal.
\<close>

definition strftime_Ymd :: "datetime \<Rightarrow> int" where
  "strftime_Ymd d = fst d"

subsection \<open>Strings\<close>

text \<open>
  A \<open>char\<close> is one code point from 0 to 255. \<open>str.isspace\<close> holds there for tab, line
  feed, vertical tab, form feed, carriage return (9..13), the four separators 0x1C..0x1F,
  the space (32), the next-line control 0x85 and the no-break space 0xA0, and for nothing
  else.
\<close>

definition isspace :: "char \<Rightarrow> bool" where
  "isspace c =
     (let n = (of_char c :: nat)
      in (9 \<le> n \<and> n \<le> 13) \<or> (28 \<le> n \<and> n \<le> 32) \<or> n = 0x85 \<or> n = 0xA0)"

text \<open>\<open>s.strip()\<close>: whitespace removed at both ends.\<close>

definition strip :: "string \<Rightarrow> string" where
  "strip s = rev (dropWhile isspace (rev (dropWhile isspace s)))"

text \<open>\<open>s.replace(c, '')\<close> for a one-character \<open>c\<close>: every occurrence removed.\<close>

definition replace_with_empty :: "char \<Rightarrow> string \<Rightarrow> string" where
  "replace_with_empty c s = filter (\<lambda>x. x \<noteq> c) s"

section \<open>Configuration\<close>

definition EXCHANGE_PREFIX :: string where
  "EXCHANGE_PREFIX = ''NSE_EQ|''"

definition INTERVAL_UNIT :: string where
  "INTERVAL_UNIT = ''days''"

definition INTERVAL_VALUE :: string where
  "INTERVAL_VALUE = ''1''"

definition STOP_YEAR :: int where
  "STOP_YEAR = 2000"

definition CHUNK_SIZE_DAYS :: int where
  "CHUNK_SIZE_DAYS = 365 * 3"

text \<open>app2.py: \<open>START_DATE = datetime(2010, 1, 1)\<close>, midnight of the first day of 2010.\<close>

definition START_DATE :: datetime where
  "START_DATE = (days_before_year 2010 + 1, 0)"

section \<open>The calendar: the year of an ordinal, and date arithmetic\<close>

lemma div_parts:
  fixes a b c d :: int
  assumes "0 \<le> b" "b \<le> 3" "0 \<le> c" "c \<le> 24" "0 \<le> d" "d \<le> 3"
  shows "(a * 400 + b * 100 + c * 4 + d) div 4 = a * 100 + b * 25 + c"
    and "(a * 400 + b * 100 + c * 4 + d) div 100 = a * 4 + b"
    and "(a * 400 + b * 100 + c * 4 + d) div 400 = a"
proof -
  show "(a * 400 + b * 100 + c * 4 + d) div 4 = a * 100 + b * 25 + c"
    by (rule int_div_pos_eq [where r = d]) (use assms in auto)
  show "(a * 400 + b * 100 + c * 4 + d) div 100 = a * 4 + b"
    by (rule int_div_pos_eq [where r = "c * 4 + d"]) (use assms in auto)
  show "(a * 400 + b * 100 + c * 4 + d) div 400 = a"
    by (rule int_div_pos_eq [where r = "b * 100 + c * 4 + d"]) (use assms in auto)
qed

lemma leap_count_mono:
  "(y::int) div 4 - y div 100 + y div 400 \<le> (y + 1) div 4 - (y + 1) div 100 + (y + 1) div 400"
proof -
  have A: "y div 4 \<le> (y + 1) div 4" by (rule zdiv_mono1) simp_all
  have C: "y div 400 \<le> (y + 1) div 400" by (rule zdiv_mono1) simp_all
  have "(y + 1) div 100 \<le> (y + 100) div 100" by (rule zdiv_mono1) simp_all
  then have B: "(y + 1) div 100 \<le> y div 100 + 1" by simp
  show ?thesis
  proof (cases "(y + 1) div 100 = y div 100")
    case True
    with A C show ?thesis by linarith
  next
    case False
    with B have e: "(y + 1) div 100 = y div 100 + 1"
      using zdiv_mono1 [of y "y + 1" 100] by linarith
    define k where "k = (y + 1) div 100"
    define p where "p = (y + 1) mod 100"
    define q where "q = y mod 100"
    have m1: "0 \<le> p" and m2: "q < 100" by (simp_all add: p_def q_def)
    have d1: "y + 1 = 100 * k + p" by (simp add: k_def p_def)
    have d2: "y = 100 * (k - 1) + q" using e by (simp add: k_def q_def)
    have "q = 99 + p" using d1 d2 by simp
    with m1 m2 have "q = 99" by simp
    with d2 have yk: "y = 4 * (25 * k - 1) + 3" by simp
    have y4: "y div 4 = 25 * k - 1" by (rule int_div_pos_eq [OF yk]) simp_all
    have "y + 1 = 4 * (25 * k) + 0" using yk by simp
    then have y14: "(y + 1) div 4 = 25 * k" by (rule int_div_pos_eq) simp_all
    show ?thesis using y4 y14 e C by linarith
  qed
qed

lemma days_before_year_step: "days_before_year y + 365 \<le> days_before_year (y + 1)"
  using leap_count_mono [of "y - 1"] by (simp add: days_before_year_def algebra_simps)

text \<open>An ordinal lies in the year \<open>ord2year\<close> gives it: after its first day, before the next year's.\<close>

lemma ord2year_bounds:
  "days_before_year (ord2year n) < n \<and> n \<le> days_before_year (ord2year n + 1)"
proof -
  define m where "m = n - 1"
  define a where "a = m div 146097"
  define r where "r = m mod 146097"
  define b where "b = r div 36524"
  define s where "s = r mod 36524"
  define c where "c = s div 1461"
  define t where "t = s mod 1461"
  define d where "d = t div 365"
  define u where "u = t mod 365"
  have m: "m = a * 146097 + r" and r: "0 \<le> r" "r < 146097"
    by (simp_all add: a_def r_def)
  have rs: "r = b * 36524 + s" and s: "0 \<le> s" "s < 36524"
    by (simp_all add: b_def s_def)
  have st: "s = c * 1461 + t" and t: "0 \<le> t" "t < 1461"
    by (simp_all add: c_def t_def)
  have tu: "t = d * 365 + u" and u: "0 \<le> u" "u < 365"
    by (simp_all add: d_def u_def)
  have b: "0 \<le> b" "b \<le> 4" using r rs s by linarith+
  have c: "0 \<le> c" "c \<le> 24" using s st t by linarith+
  have d: "0 \<le> d" "d \<le> 4" using t tu u by linarith+
  have y: "ord2year n = (if d = 4 \<or> b = 4 then a * 400 + b * 100 + c * 4 + d
                          else a * 400 + b * 100 + c * 4 + d + 1)"
    unfolding ord2year_def Let_def m_def a_def r_def b_def s_def c_def t_def d_def u_def
    by simp
  have n: "n = a * 146097 + b * 36524 + c * 1461 + d * 365 + u + 1"
    using m rs st tu by (simp add: m_def)
  show ?thesis
  proof (cases "b = 4")
    case True
    then have z: "c = 0" "d = 0" "u = 0"
      using r rs s st t tu u c d by linarith+
    have yy: "ord2year n = a * 400 + 400" using y True z by simp
    have y1: "ord2year n - 1 = a * 400 + 3 * 100 + 24 * 4 + 3" using yy by simp
    have y2: "ord2year n + 1 - 1 = (a + 1) * 400 + 0 * 100 + 0 * 4 + 0" using yy by simp
    have lo: "days_before_year (ord2year n) = a * 146097 + 145731"
      unfolding days_before_year_def y1
      using div_parts [of 3 24 3 a] by simp
    have hi: "days_before_year (ord2year n + 1) = a * 146097 + 146097"
      unfolding days_before_year_def y2
      using div_parts [of 0 0 0 "a + 1"] by simp
    show ?thesis using lo hi n True z by simp
  next
    case b4: False
    with b have b3: "b \<le> 3" by linarith
    show ?thesis
    proof (cases "d = 4")
      case True
      then have u0: "u = 0" using t tu u by linarith
      have c23: "0 \<le> c + 1" "c + 1 \<le> 24" using s st t tu u True c by linarith+
      have y1: "ord2year n - 1 = a * 400 + b * 100 + c * 4 + 3" using y True by simp
      have y2: "ord2year n + 1 - 1 = a * 400 + b * 100 + (c + 1) * 4 + 0" using y True by simp
      have lo: "days_before_year (ord2year n) = a * 146097 + b * 36524 + c * 1461 + 1095"
        unfolding days_before_year_def y1
        using div_parts [OF b(1) b3 c, of 3 a] by simp
      have hi: "days_before_year (ord2year n + 1) = a * 146097 + b * 36524 + c * 1461 + 1461"
        unfolding days_before_year_def y2
        using div_parts [OF b(1) b3 c23, of 0 a] by simp
      show ?thesis using lo hi n True u0 by simp
    next
      case False
      with d have d3: "d \<le> 3" by linarith
      have yy: "ord2year n - 1 = a * 400 + b * 100 + c * 4 + d"
        using y b4 False by simp
      have lo: "days_before_year (ord2year n) = n - 1 - u"
        unfolding days_before_year_def yy
        using div_parts [OF b(1) b3 c d(1) d3, of a] n by simp
      show ?thesis
        using lo days_before_year_step [of "ord2year n"] u by linarith
    qed
  qed
qed

lemma days_before_year_mono: "y \<le> z \<Longrightarrow> days_before_year y \<le> days_before_year z"
proof -
  have "days_before_year y \<le> days_before_year (y + int k)" for k
  proof (induction k)
    case 0 show ?case by simp
  next
    case (Suc k)
    have e: "y + int (Suc k) = y + int k + 1" by simp
    show ?case
      unfolding e using Suc days_before_year_step [of "y + int k"] by linarith
  qed
  from this [of "nat (z - y)"] show "y \<le> z \<Longrightarrow> days_before_year y \<le> days_before_year z"
    by simp
qed

lemma ord2year_ge_iff: "y \<le> ord2year n \<longleftrightarrow> days_before_year y < n"
proof
  assume "y \<le> ord2year n"
  then show "days_before_year y < n"
    using days_before_year_mono [of y "ord2year n"] ord2year_bounds [of n] by linarith
next
  assume h: "days_before_year y < n"
  show "y \<le> ord2year n"
  proof (rule ccontr)
    assume "\<not> y \<le> ord2year n"
    then have "ord2year n + 1 \<le> y" by simp
    then show False
      using days_before_year_mono [of "ord2year n + 1" y] ord2year_bounds [of n] h by linarith
  qed
qed

lemma year_ge_2000: "2000 \<le> year d \<longleftrightarrow> 730120 \<le> fst d"
  by (auto simp: year_def ord2year_ge_iff days_before_year_def)

lemma year_ge_2010: "2010 \<le> year d \<longleftrightarrow> 733773 \<le> fst d"
  by (auto simp: year_def ord2year_ge_iff days_before_year_def)

lemma year_ge_2015: "2015 \<le> ord2year n \<longleftrightarrow> 735599 \<le> n"
  by (auto simp: ord2year_ge_iff days_before_year_def)

lemma year_lt_2010: "year d < 2010 \<longleftrightarrow> fst d < 733773"
  using year_ge_2010 [of d] by auto

lemma START_DATE_eq: "START_DATE = (733773, 0)"
  by (simp add: START_DATE_def days_before_year_def)

lemma START_DATE_le: "START_DATE \<le> d \<longleftrightarrow> 733773 \<le> fst d"
  by (cases d) (auto simp: START_DATE_eq)

lemma le_START_DATE: "d \<le> START_DATE \<longleftrightarrow> fst d < 733773 \<or> (fst d = 733773 \<and> snd d = 0)"
  by (cases d) (auto simp: START_DATE_eq)

lemma max_START_DATE: "fst (max d START_DATE) = max (fst d) 733773"
  by (cases d) (auto simp: START_DATE_eq max_def)

lemma sub_days_chunk:
  "730120 \<le> fst d \<Longrightarrow> fst d \<le> MAXORDINAL
     \<Longrightarrow> sub_days d CHUNK_SIZE_DAYS = Inr (fst d - 1095, snd d)"
  by (simp add: sub_days_def CHUNK_SIZE_DAYS_def)

lemma sub_days_Inr:
  "sub_days d n = Inr d' \<Longrightarrow> d' = (fst d - n, snd d) \<and> 0 < fst d - n \<and> fst d - n \<le> MAXORDINAL"
  by (auto simp: sub_days_def split: if_splits)

lemma sub_days_one:
  "START_DATE \<le> d \<Longrightarrow> fst d \<le> MAXORDINAL \<Longrightarrow> sub_days d 1 = Inr (fst d - 1, snd d)"
  by (simp add: sub_days_def START_DATE_le)

section \<open>Instrument key\<close>

text \<open>
  \<open>get_instrument_key\<close> (the same in both scripts):
  \<open>f"{EXCHANGE_PREFIX}{str(isin).strip()}"\<close>. The identifier is taken as the text
  \<open>str(isin)\<close>.
\<close>

definition get_instrument_key :: "string \<Rightarrow> string" where
  "get_instrument_key isin = EXCHANGE_PREFIX @ strip isin"

section \<open>The remote API and the chunk fetcher\<close>

text \<open>A candle as the API returns it and as a DataFrame row holds it: seven columns.\<close>

datatype ('d, 'p, 'v) candle =
  Candle (Date: 'd) (Open: 'p) (High: 'p) (Low: 'p) (Close: 'p) (Volume: 'v) (Open_Interest: 'v)

text \<open>The arguments of \<open>get_historical_candle_data1\<close>, in the order the scripts pass them.\<close>

record request =
  instrument_key :: string
  unit :: string
  interval :: string
  to_date :: int
  from_date :: int

text \<open>
  What one call of the remote API can do, as far as \<open>fetch_chunk\<close> can tell:
  raise; return an object without a \<open>data\<close> attribute; return data without a
  \<open>candles\<close> attribute (\<open>None\<close> included); return data whose \<open>candles\<close> is
  \<open>None\<close>; return a list of candles.
\<close>

datatype 'c api_outcome =
    Raised py_error
  | ResponseNoData
  | DataNoCandles
  | CandlesNone
  | Candles "'c list"

text \<open>
  The API is a black box with a state of its own (the network, the provider, the rate
  limiter): a call takes the state and the request and gives the outcome and the next state.
\<close>

type_synonym ('w, 'c) api = "'w \<Rightarrow> request \<Rightarrow> 'c api_outcome \<times> 'w"

text \<open>
  The request \<open>fetch_chunk\<close> sends for a window: the key, the interval constants, and
  the end and the start of the window as calendar dates.
\<close>

definition window_request :: "string \<Rightarrow> datetime \<Rightarrow> datetime \<Rightarrow> request" where
  "window_request key start_date end_date =
     \<lparr>instrument_key = key, unit = INTERVAL_UNIT, interval = INTERVAL_VALUE,
      to_date = strftime_Ymd end_date, from_date = strftime_Ymd start_date\<rparr>"

text \<open>
  The body of the \<open>try\<close> block of \<open>fetch_chunk\<close>: the call, then
  \<open>getattr(response.data, "candles", [])\<close> and \<open>candles if candles else []\<close>.
\<close>

definition fetch_chunk_try ::
  "('w, 'c) api \<Rightarrow> 'w \<Rightarrow> string \<Rightarrow> datetime \<Rightarrow> datetime \<Rightarrow> (py_error + 'c list) \<times> 'w" where
  "fetch_chunk_try api w key start_date end_date =
     (case api w (window_request key start_date end_date) of
        (Raised e, w') \<Rightarrow> (Inl e, w')
      | (ResponseNoData, w') \<Rightarrow> (Inl AttributeError, w')
      | (DataNoCandles, w') \<Rightarrow> (Inr [], w')
      | (CandlesNone, w') \<Rightarrow> (Inr [], w')
      | (Candles candles, w') \<Rightarrow> (Inr (if candles \<noteq> [] then candles else []), w'))"

text \<open>\<open>fetch_chunk\<close> (the same in both scripts): \<open>except Exception: return []\<close>.\<close>

definition fetch_chunk ::
  "('w, 'c) api \<Rightarrow> 'w \<Rightarrow> string \<Rightarrow> datetime \<Rightarrow> datetime \<Rightarrow> py_error + ('c list \<times> 'w)" where
  "fetch_chunk api w key start_date end_date =
     (case fetch_chunk_try api w key start_date end_date of
        (Inl e, w') \<Rightarrow> Inr ([], w')
      | (Inr candles, w') \<Rightarrow> Inr (candles, w'))"

text \<open>The candles an outcome carries; every outcome but a list of candles is a failure.\<close>

fun outcome_candles :: "'c api_outcome \<Rightarrow> 'c list" where
  "outcome_candles (Candles candles) = candles"
| "outcome_candles _ = []"

section \<open>app.py: backward pagination with an adaptive stop\<close>

text \<open>A fetch window: the pair of its start and its end, as passed to \<open>fetch_chunk\<close>.\<close>

type_synonym window = "datetime \<times> datetime"

text \<open>
  The \<open>while\<close> loop of \<open>process_single_stock\<close> in app.py. Its variables are
  \<open>all_candles\<close> and \<open>current_end\<close>; \<open>w\<close> is the state of the API and \<open>issued\<close> the
  windows fetched so far, oldest request first (a record of the calls, not a variable of
  the script). \<open>time.sleep\<close> has no value and is left out.
\<close>

function app_loop ::
  "('w, 'c) api \<Rightarrow> string \<Rightarrow> 'w \<Rightarrow> window list \<Rightarrow> 'c list \<Rightarrow> datetime
     \<Rightarrow> py_error + ('c list \<times> window list \<times> 'w)" where
  "app_loop api key w issued all_candles current_end =
     (if year current_end \<ge> STOP_YEAR then
        (case sub_days current_end CHUNK_SIZE_DAYS of
           Inl e \<Rightarrow> Inl e
         | Inr current_start \<Rightarrow>
            (case fetch_chunk api w key current_start current_end of
               Inl e \<Rightarrow> Inl e
             | Inr (chunk_candles, w') \<Rightarrow>
                 if chunk_candles \<noteq> [] then
                   app_loop api key w' (issued @ [(current_start, current_end)])
                     (all_candles @ chunk_candles) current_start
                 else if year current_end < 2010 then
                   Inr (all_candles, issued @ [(current_start, current_end)], w')
                 else
                   app_loop api key w' (issued @ [(current_start, current_end)])
                     all_candles current_start))
      else Inr (all_candles, issued, w))"
  by pat_completeness auto
termination
proof (relation "measure (\<lambda>(api, key, w, issued, all_candles, current_end). nat (fst current_end))")
  show "wf (measure (\<lambda>(api, key, w, issued, all_candles, current_end). nat (fst current_end)))"
    by simp
next
  fix api :: "('w, 'c) api" and key w issued and all_candles :: "'c list" and current_end current_start x chunk_candles w'
  assume "STOP_YEAR \<le> year current_end" "sub_days current_end CHUNK_SIZE_DAYS = Inr current_start"
  then show "((api, key, w', issued @ [(current_start, current_end)], all_candles @ chunk_candles, current_start),
              (api, key, w, issued, all_candles, current_end))
             \<in> measure (\<lambda>(api, key, w, issued, all_candles, current_end). nat (fst current_end))"
    by (auto simp: STOP_YEAR_def year_ge_2000 sub_days_def CHUNK_SIZE_DAYS_def split: if_splits)
next
  fix api :: "('w, 'c) api" and key w issued and all_candles :: "'c list" and current_end current_start x chunk_candles w'
  assume "STOP_YEAR \<le> year current_end" "sub_days current_end CHUNK_SIZE_DAYS = Inr current_start"
  then show "((api, key, w', issued @ [(current_start, current_end)], all_candles, current_start),
              (api, key, w, issued, all_candles, current_end))
             \<in> measure (\<lambda>(api, key, w, issued, all_candles, current_end). nat (fst current_end))"
    by (auto simp: STOP_YEAR_def year_ge_2000 sub_days_def CHUNK_SIZE_DAYS_def split: if_splits)
qed

declare app_loop.simps [simp del]

section \<open>app2.py: backward pagination down to a fixed floor date\<close>

text \<open>
  The \<open>while\<close> loop of \<open>process_single_stock\<close> in app2.py, with the same conventions
  as \<open>app_loop\<close>. \<open>max\<close> clamps the start of a window to \<open>START_DATE\<close>; the next
  window ends the day before this one starts; the loop leaves when a start has reached
  \<open>START_DATE\<close>, whatever the fetch returned.
\<close>

function app2_loop ::
  "('w, 'c) api \<Rightarrow> string \<Rightarrow> 'w \<Rightarrow> window list \<Rightarrow> 'c list \<Rightarrow> datetime
     \<Rightarrow> py_error + ('c list \<times> window list \<times> 'w)" where
  "app2_loop api key w issued all_candles current_end =
     (if current_end \<ge> START_DATE then
        (case sub_days current_end CHUNK_SIZE_DAYS of
           Inl e \<Rightarrow> Inl e
         | Inr d \<Rightarrow>
            let current_start = max d START_DATE in
            (case fetch_chunk api w key current_start current_end of
               Inl e \<Rightarrow> Inl e
             | Inr (chunk_candles, w') \<Rightarrow>
                 let all_candles' =
                       (if chunk_candles \<noteq> [] then all_candles @ chunk_candles else all_candles)
                 in
                 (case sub_days current_start 1 of
                    Inl e \<Rightarrow> Inl e
                  | Inr current_end' \<Rightarrow>
                      if current_start \<le> START_DATE then
                        Inr (all_candles', issued @ [(current_start, current_end)], w')
                      else
                        app2_loop api key w' (issued @ [(current_start, current_end)])
                          all_candles' current_end')))
      else Inr (all_candles, issued, w))"
  by pat_completeness auto
termination
proof (relation "measure (\<lambda>(api, key, w, issued, all_candles, current_end). nat (fst current_end))",
       goal_cases)
  case 1
  show ?case by simp
next
  case (2 api key w issued all_candles current_end d current_start x chunk_candles w' all_candles' current_end')
  from sub_days_Inr [OF 2(2)] sub_days_Inr [OF 2(7)] 2(1,3)
  show ?case
    by (simp add: START_DATE_le max_START_DATE CHUNK_SIZE_DAYS_def)
qed

declare app2_loop.simps [simp del]

section \<open>Per-symbol normalisation and the two pipelines\<close>

text \<open>
  The pandas conversions the scripts apply to the columns, each cell either converting or
  raising: \<open>pd.to_datetime(...).dt.tz_localize(None)\<close> for \<open>Date\<close>,
  \<open>astype(float)\<close> for the four prices, \<open>astype(int)\<close> for \<open>Volume\<close> and
  \<open>Open_Interest\<close>. The raw cell types and the types of timestamps and floats are
  parameters; timestamps are linearly ordered, and a missing date (NaT) is not modelled.
\<close>

record ('rd, 'rp, 'rv, 'd, 'p) pandas =
  to_datetime :: "'rd \<Rightarrow> py_error + 'd"
  astype_float :: "'rp \<Rightarrow> py_error + 'p"
  astype_int :: "'rv \<Rightarrow> py_error + int"

text \<open>
  A conversion applied to a whole column: the first cell that fails raises.
\<close>

fun convert_column :: "('a \<Rightarrow> py_error + 'b) \<Rightarrow> 'a list \<Rightarrow> py_error + 'b list" where
  "convert_column f [] = Inr []"
| "convert_column f (x # xs) =
     (case f x of
        Inl e \<Rightarrow> Inl e
      | Inr y \<Rightarrow> (case convert_column f xs of Inl e \<Rightarrow> Inl e | Inr ys \<Rightarrow> Inr (y # ys)))"

text \<open>
  The three conversions of the \<open>Formatting\<close> step on one row.
\<close>

fun convert_Date ::
  "('rd \<Rightarrow> py_error + 'd) \<Rightarrow> ('rd, 'p, 'v) candle \<Rightarrow> py_error + ('d, 'p, 'v) candle" where
  "convert_Date f (Candle d op hi lo cl vol oi) =
     (case f d of Inl e \<Rightarrow> Inl e | Inr d' \<Rightarrow> Inr (Candle d' op hi lo cl vol oi))"

fun convert_OHLC ::
  "('rp \<Rightarrow> py_error + 'p) \<Rightarrow> ('d, 'rp, 'v) candle \<Rightarrow> py_error + ('d, 'p, 'v) candle" where
  "convert_OHLC f (Candle d op hi lo cl vol oi) =
     (case f op of Inl e \<Rightarrow> Inl e | Inr op' \<Rightarrow>
      case f hi of Inl e \<Rightarrow> Inl e | Inr hi' \<Rightarrow>
      case f lo of Inl e \<Rightarrow> Inl e | Inr lo' \<Rightarrow>
      case f cl of Inl e \<Rightarrow> Inl e | Inr cl' \<Rightarrow> Inr (Candle d op' hi' lo' cl' vol oi))"

fun convert_Volume_OI ::
  "('rv \<Rightarrow> py_error + 'v) \<Rightarrow> ('d, 'p, 'rv) candle \<Rightarrow> py_error + ('d, 'p, 'v) candle" where
  "convert_Volume_OI f (Candle d op hi lo cl vol oi) =
     (case f vol of Inl e \<Rightarrow> Inl e | Inr vol' \<Rightarrow>
      case f oi of Inl e \<Rightarrow> Inl e | Inr oi' \<Rightarrow> Inr (Candle d op hi lo cl vol' oi'))"

text \<open>
  \<open>df.sort_values(by)\<close>, ascending. The model sorts stably; pandas' default sort does not
  promise an order among rows with equal keys, and no property below depends on that order.
\<close>

definition sort_values :: "('a \<Rightarrow> 'k::linorder) \<Rightarrow> 'a list \<Rightarrow> 'a list" where
  "sort_values by_key df = sort_key by_key df"

text \<open>
  \<open>df.drop_duplicates(subset=[col])\<close>: a row is dropped when an earlier row has the same
  value in the column (\<open>keep='first'\<close>); \<open>seen\<close> holds the values met so far.
\<close>

fun duplicated_after :: "('a \<Rightarrow> 'k) \<Rightarrow> 'k list \<Rightarrow> 'a list \<Rightarrow> 'a list" where
  "duplicated_after col seen [] = []"
| "duplicated_after col seen (x # xs) =
     (if col x \<in> set seen then duplicated_after col seen xs
      else x # duplicated_after col (col x # seen) xs)"

definition drop_duplicates :: "('a \<Rightarrow> 'k) \<Rightarrow> 'a list \<Rightarrow> 'a list" where
  "drop_duplicates col df = duplicated_after col [] df"

text \<open>
  The \<open>Formatting\<close> lines of \<open>process_single_stock\<close>, column after column.
\<close>

definition formatting ::
  "('rd, 'rp, 'rv, 'd, 'p) pandas \<Rightarrow> ('rd, 'rp, 'rv) candle list
     \<Rightarrow> py_error + ('d, 'p, int) candle list" where
  "formatting pd df =
     (case convert_column (convert_Date (to_datetime pd)) df of
        Inl e \<Rightarrow> Inl e
      | Inr df1 \<Rightarrow>
         (case convert_column (convert_OHLC (astype_float pd)) df1 of
            Inl e \<Rightarrow> Inl e
          | Inr df2 \<Rightarrow> convert_column (convert_Volume_OI (astype_int pd)) df2))"

text \<open>
  The \<open>Process Data\<close> part of \<open>process_single_stock\<close> in app.py: a DataFrame is the list
  of its rows, \<open>pd.DataFrame()\<close> the empty list; \<open>set_index('Date')\<close> keeps rows and
  order.
\<close>

definition app_dataframe ::
  "('rd, 'rp, 'rv, 'd::linorder, 'p) pandas \<Rightarrow> ('rd, 'rp, 'rv) candle list
     \<Rightarrow> py_error + ('d, 'p, int) candle list" where
  "app_dataframe pd all_candles =
     (if all_candles \<noteq> [] then
        (case formatting pd all_candles of
           Inl e \<Rightarrow> Inl e
         | Inr df \<Rightarrow> Inr (drop_duplicates Date (sort_values Date df)))
      else Inr [])"

text \<open>
  \<open>process_single_stock\<close> of app.py. \<open>END_DATE\<close> is \<open>datetime.now()\<close> at start-up and
  \<open>w\<close> the state of the API when the pipeline starts.
\<close>

definition app_process_single_stock ::
  "('rd, 'rp, 'rv, 'd::linorder, 'p) pandas \<Rightarrow> ('w, ('rd, 'rp, 'rv) candle) api \<Rightarrow> 'w \<Rightarrow> datetime
     \<Rightarrow> string \<Rightarrow> string \<Rightarrow> py_error + (string \<times> ('d, 'p, int) candle list)" where
  "app_process_single_stock pd api w END_DATE symbol isin =
     (let instrument_key = get_instrument_key isin in
      case app_loop api instrument_key w [] [] END_DATE of
        Inl e \<Rightarrow> Inl e
      | Inr (all_candles, issued, w') \<Rightarrow>
          (case app_dataframe pd all_candles of
             Inl e \<Rightarrow> Inl e
           | Inr df \<Rightarrow> Inr (symbol, df)))"

text \<open>
  The \<open>Process Data\<close> part of \<open>process_single_stock\<close> in app2.py: the same steps, each
  row carrying the \<open>Symbol\<close> column in front.
\<close>

definition app2_dataframe ::
  "('rd, 'rp, 'rv, 'd::linorder, 'p) pandas \<Rightarrow> string \<Rightarrow> ('rd, 'rp, 'rv) candle list
     \<Rightarrow> py_error + (string \<times> ('d, 'p, int) candle) list" where
  "app2_dataframe pd symbol all_candles =
     (if all_candles \<noteq> [] then
        (case formatting pd all_candles of
           Inl e \<Rightarrow> Inl e
         | Inr df \<Rightarrow> Inr (map (Pair symbol) (drop_duplicates Date (sort_values Date df))))
      else Inr [])"

text \<open>
  \<open>process_single_stock\<close> of app2.py.
\<close>

definition app2_process_single_stock ::
  "('rd, 'rp, 'rv, 'd::linorder, 'p) pandas \<Rightarrow> ('w, ('rd, 'rp, 'rv) candle) api \<Rightarrow> 'w \<Rightarrow> datetime
     \<Rightarrow> string \<Rightarrow> string \<Rightarrow> py_error + (string \<times> (string \<times> ('d, 'p, int) candle) list)" where
  "app2_process_single_stock pd api w END_DATE symbol isin =
     (let instrument_key = get_instrument_key isin in
      case app2_loop api instrument_key w [] [] END_DATE of
        Inl e \<Rightarrow> Inl e
      | Inr (all_candles, issued, w') \<Rightarrow>
          (case app2_dataframe pd symbol all_candles of
             Inl e \<Rightarrow> Inl e
           | Inr df \<Rightarrow> Inr (symbol, df)))"

section \<open>The main programmes\<close>

text \<open>
  What the main programmes print, without the wording: per symbol a success with the row
  count, an empty result or an error; then either the saving and completion lines or the
  line saying that no data was fetched.
\<close>

datatype message =
    Found string nat
  | NoDataFound string
  | PipelineError string py_error
  | Saving nat
  | Done
  | NoDataFetched

text \<open>
  How a run ends: an uncaught exception, or the normal end of the script with the
  artifact it wrote, if any.
\<close>

datatype 'f ending = Crashed py_error | Finished "'f option"

text \<open>
  The \<open>as_completed\<close> loop of app.py over the finished pipelines, in completion order;
  each carries the symbol it was submitted for. \<open>final_results\<close> is a dict in insertion
  order.
\<close>

fun app_collect ::
  "(string \<times> 'df list) list \<Rightarrow> (string \<times> (py_error + (string \<times> 'df list))) list
     \<Rightarrow> (string \<times> 'df list) list \<times> message list" where
  "app_collect final_results [] = (final_results, [])"
| "app_collect final_results ((symbol, Inr (symb, df)) # futures) =
     (if df \<noteq> [] then
        (let (results, out) = app_collect (AList.update symb df final_results) futures
         in (results, Found symb (length df) # out))
      else
        (let (results, out) = app_collect final_results futures
         in (results, NoDataFound symb # out)))"
| "app_collect final_results ((symbol, Inl e) # futures) =
     (let (results, out) = app_collect final_results futures
      in (results, PipelineError symbol e # out))"

text \<open>
  \<open>symbol.replace('|', '').replace(':', '').replace('/', '')[:30]\<close>
\<close>

definition safe_name :: "string \<Rightarrow> string" where
  "safe_name symbol =
     take 30 (replace_with_empty (CHR ''/'')
               (replace_with_empty (CHR '':'') (replace_with_empty (CHR ''|'') symbol)))"

text \<open>
  The \<open>Save to Excel\<close> part of app.py. The workbook writer is an external collaborator: it
  takes the sheets in the order written and may raise.
\<close>

definition app_save ::
  "((string \<times> 'df list) list \<Rightarrow> py_error option) \<Rightarrow> (string \<times> 'df list) list
     \<Rightarrow> message list \<times> (string \<times> 'df list) list ending" where
  "app_save excel_writer final_results =
     (if final_results \<noteq> [] then
        (let sheets = map (\<lambda>(symbol, df). (safe_name symbol, df)) final_results in
         case excel_writer sheets of
           Some e \<Rightarrow> ([Saving (length final_results)], Crashed e)
         | None \<Rightarrow> ([Saving (length final_results), Done], Finished (Some sheets)))
      else ([NoDataFetched], Finished None))"

text \<open>
  The main programme of app.py from the loaded roster on. \<open>completed\<close> is the roster in the
  order the pipelines complete, \<open>client symb\<close> the state of the API instance the pipeline
  of \<open>symb\<close> creates.
\<close>

definition app_main ::
  "('rd, 'rp, 'rv, 'd::linorder, 'p) pandas \<Rightarrow> ('w, ('rd, 'rp, 'rv) candle) api \<Rightarrow> (string \<Rightarrow> 'w)
     \<Rightarrow> datetime \<Rightarrow> ((string \<times> ('d, 'p, int) candle list) list \<Rightarrow> py_error option)
     \<Rightarrow> (string \<times> string) list
     \<Rightarrow> message list \<times> (string \<times> ('d, 'p, int) candle list) list ending" where
  "app_main pd api client END_DATE excel_writer completed =
     (let futures = map (\<lambda>(symb, isin).
                      (symb, app_process_single_stock pd api (client symb) END_DATE symb isin)) completed;
          (final_results, out) = app_collect [] futures;
          (out', ending) = app_save excel_writer final_results
      in (out @ out', ending))"

text \<open>
  The \<open>as_completed\<close> loop of app2.py: \<open>all_data\<close> is a list of DataFrames.
\<close>

fun app2_collect ::
  "'df list list \<Rightarrow> (string \<times> (py_error + (string \<times> 'df list))) list
     \<Rightarrow> 'df list list \<times> message list" where
  "app2_collect all_data [] = (all_data, [])"
| "app2_collect all_data ((symbol, Inr (symb, df)) # futures) =
     (if df \<noteq> [] then
        (let (results, out) = app2_collect (all_data @ [df]) futures
         in (results, Found symb (length df) # out))
      else
        (let (results, out) = app2_collect all_data futures
         in (results, NoDataFound symb # out)))"
| "app2_collect all_data ((symbol, Inl e) # futures) =
     (let (results, out) = app2_collect all_data futures
      in (results, PipelineError symbol e # out))"

text \<open>
  \<open>pd.concat(all_data, ignore_index=True)\<close> followed by
  \<open>sort_values(['Symbol', 'Date'])\<close>.
\<close>

definition app2_merge ::
  "(string \<times> ('d::linorder, 'p, 'v) candle) list list \<Rightarrow> (string \<times> ('d, 'p, 'v) candle) list" where
  "app2_merge all_data =
     (let final_df = concat all_data
      in sort_values (\<lambda>row. (fst row, Date (snd row))) final_df)"

text \<open>
  The \<open>Merge all data and save to CSV\<close> part of app2.py; \<open>to_csv\<close> is the external
  writer.
\<close>

definition app2_save ::
  "((string \<times> ('d::linorder, 'p, 'v) candle) list \<Rightarrow> py_error option)
     \<Rightarrow> (string \<times> ('d, 'p, 'v) candle) list list
     \<Rightarrow> message list \<times> (string \<times> ('d, 'p, 'v) candle) list ending" where
  "app2_save to_csv all_data =
     (if all_data \<noteq> [] then
        (let final_df = app2_merge all_data in
         case to_csv final_df of
           Some e \<Rightarrow> ([Saving (length all_data)], Crashed e)
         | None \<Rightarrow> ([Saving (length all_data), Done], Finished (Some final_df)))
      else ([NoDataFetched], Finished None))"

text \<open>
  The main programme of app2.py from the loaded roster on.
\<close>

definition app2_main ::
  "('rd, 'rp, 'rv, 'd::linorder, 'p) pandas \<Rightarrow> ('w, ('rd, 'rp, 'rv) candle) api \<Rightarrow> (string \<Rightarrow> 'w)
     \<Rightarrow> datetime \<Rightarrow> ((string \<times> ('d, 'p, int) candle) list \<Rightarrow> py_error option)
     \<Rightarrow> (string \<times> string) list
     \<Rightarrow> message list \<times> (string \<times> ('d, 'p, int) candle) list ending" where
  "app2_main pd api client END_DATE to_csv completed =
     (let futures = map (\<lambda>(symb, isin).
                      (symb, app2_process_single_stock pd api (client symb) END_DATE symb isin)) completed;
          (all_data, out) = app2_collect [] futures;
          (out', ending) = app2_save to_csv all_data
      in (out @ out', ending))"

section \<open>Fetchers, inputs and predicates used to state the properties\<close>

text \<open>A fetcher that never has data.\<close>

definition empty_api :: "('w, 'c) api" where
  "empty_api w req = (Candles [], w)"

text \<open>
  The synthetic fetcher of the termination property: a non-empty list of candles for a
  request whose end date lies in 2015 or later, the empty list before.
\<close>

definition synthetic_api :: "'c \<Rightarrow> 'c list \<Rightarrow> ('w, 'c) api" where
  "synthetic_api c cs w req =
     (if 2015 \<le> ord2year (to_date req) then Candles (c # cs) else Candles [], w)"

text \<open>
  A fetcher that answers every request with one candle dated on the first day of the
  window and one dated on its last day (a single candle when the two days coincide): no
  answer holds a date twice.
\<close>

definition boundary_api :: "(unit, (datetime, int, int) candle) api" where
  "boundary_api w req =
     (Candles (map (\<lambda>d. Candle (d, 0) 0 0 0 0 0 0)
                 (if from_date req = to_date req then [to_date req]
                  else [from_date req, to_date req])), w)"

text \<open>
  Conversions that take every cell as it is.
\<close>

definition plain_pandas :: "('d, 'p, int, 'd, 'p) pandas" where
  "plain_pandas = \<lparr>to_datetime = Inr, astype_float = Inr, astype_int = Inr\<rparr>"

text \<open>
  How many windows the loop fetches from \<open>d\<close> against the synthetic fetcher: none when
  \<open>d\<close> is before 2000, one when it is before 2010, and otherwise one per 1095 days back to
  2010-01-01 and one more, the empty window that ends before 2010 and stops the loop.
\<close>

definition windows_expected :: "datetime \<Rightarrow> nat" where
  "windows_expected d =
     (if fst d < 730120 then 0
      else if fst d < 733773 then 1
      else nat ((fst d - 733773) div 1095) + 2)"

text \<open>The windows a run of a pagination loop has fetched (none when it raised).\<close>

definition windows_of :: "py_error + ('c list \<times> window list \<times> 'w) \<Rightarrow> window list" where
  "windows_of r = (case r of Inl e \<Rightarrow> [] | Inr (cs, ws, w) \<Rightarrow> ws)"

text \<open>Consecutive windows share a boundary: each window ends where the one before starts.\<close>

fun chained :: "window list \<Rightarrow> bool" where
  "chained (w1 # w2 # ws) = (snd w2 = fst w1 \<and> chained (w2 # ws))"
| "chained _ = True"

text \<open>Consecutive windows leave no day out: each ends the day before the previous one starts.\<close>

fun adjacent :: "window list \<Rightarrow> bool" where
  "adjacent (w1 # w2 # ws) = (snd w2 = (fst (fst w1) - 1, snd (fst w1)) \<and> adjacent (w2 # ws))"
| "adjacent _ = True"

text \<open>
  A raw candle all of whose cells convert.
\<close>

definition parses :: "('rd, 'rp, 'rv, 'd, 'p) pandas \<Rightarrow> ('rd, 'rp, 'rv) candle \<Rightarrow> bool" where
  "parses pd c =
     (\<not> isl (to_datetime pd (Date c))
      \<and> \<not> isl (astype_float pd (Open c)) \<and> \<not> isl (astype_float pd (High c))
      \<and> \<not> isl (astype_float pd (Low c)) \<and> \<not> isl (astype_float pd (Close c))
      \<and> \<not> isl (astype_int pd (Volume c)) \<and> \<not> isl (astype_int pd (Open_Interest c)))"

text \<open>
  A symbol without the three separator characters.
\<close>

definition stripped :: "string \<Rightarrow> string" where
  "stripped symbol = filter (\<lambda>c. c \<notin> {CHR ''|'', CHR '':'', CHR ''/''}) symbol"

section \<open>The chunk fetcher always returns\<close>

lemma fetch_chunk_Inr:
  "\<exists>candles w'. fetch_chunk api w key start_date end_date = Inr (candles, w')"
  by (auto simp: fetch_chunk_def split: prod.splits sum.splits)

lemma fetch_chunk_synthetic:
  "fetch_chunk (synthetic_api c cs) w key start_date end_date =
     Inr (if 2015 \<le> year end_date then c # cs else [], w)"
  by (simp add: fetch_chunk_def fetch_chunk_try_def window_request_def synthetic_api_def strftime_Ymd_def year_def)

section \<open>The loop of app.py\<close>

lemma app_loop_exit:
  "\<not> STOP_YEAR \<le> year current_end
     \<Longrightarrow> app_loop api key w issued all_candles current_end = Inr (all_candles, issued, w)"
  by (subst app_loop.simps) simp

lemma app_loop_overflow:
  "STOP_YEAR \<le> year current_end \<Longrightarrow> sub_days current_end CHUNK_SIZE_DAYS = Inl err
     \<Longrightarrow> app_loop api key w issued all_candles current_end = Inl err"
  by (subst app_loop.simps) simp

lemma app_loop_step:
  "STOP_YEAR \<le> year current_end \<Longrightarrow> sub_days current_end CHUNK_SIZE_DAYS = Inr current_start
     \<Longrightarrow> fetch_chunk api w key current_start current_end = Inr (chunk_candles, w')
     \<Longrightarrow> app_loop api key w issued all_candles current_end =
         (if chunk_candles \<noteq> [] then
            app_loop api key w' (issued @ [(current_start, current_end)])
              (all_candles @ chunk_candles) current_start
          else if year current_end < 2010 then
            Inr (all_candles, issued @ [(current_start, current_end)], w')
          else
            app_loop api key w' (issued @ [(current_start, current_end)]) all_candles current_start)"
  by (subst app_loop.simps) simp

lemma app_loop_cases [consumes 0, case_names exit overflow step]:
  assumes exit: "\<And>api key w issued all_candles current_end.
      \<not> STOP_YEAR \<le> year current_end \<Longrightarrow> P api key w issued all_candles current_end"
    and overflow: "\<And>api key w issued all_candles current_end err.
      STOP_YEAR \<le> year current_end \<Longrightarrow> sub_days current_end CHUNK_SIZE_DAYS = Inl err
        \<Longrightarrow> P api key w issued all_candles current_end"
    and step: "\<And>api key w issued all_candles current_end current_start chunk_candles w'.
      STOP_YEAR \<le> year current_end \<Longrightarrow> sub_days current_end CHUNK_SIZE_DAYS = Inr current_start
        \<Longrightarrow> fetch_chunk api w key current_start current_end = Inr (chunk_candles, w')
        \<Longrightarrow> (chunk_candles \<noteq> [] \<Longrightarrow>
              P api key w' (issued @ [(current_start, current_end)])
                (all_candles @ chunk_candles) current_start)
        \<Longrightarrow> (chunk_candles = [] \<Longrightarrow> \<not> year current_end < 2010 \<Longrightarrow>
              P api key w' (issued @ [(current_start, current_end)]) all_candles current_start)
        \<Longrightarrow> P api key w issued all_candles current_end"
  shows "P api key w issued all_candles current_end"
proof (induction api key w issued all_candles current_end rule: app_loop.induct)
  case (1 api key w issued all_candles current_end)
  show ?case
  proof (cases "STOP_YEAR \<le> year current_end")
    case False
    then show ?thesis by (rule exit)
  next
    case True
    show ?thesis
    proof (cases "sub_days current_end CHUNK_SIZE_DAYS")
      case (Inl err)
      with True show ?thesis by (rule overflow)
    next
      case (Inr current_start)
      obtain chunk w' where fc: "fetch_chunk api w key current_start current_end = Inr (chunk, w')"
        using fetch_chunk_Inr [of api w key current_start current_end] by auto
      show ?thesis
      proof (rule step [OF True Inr fc])
        assume "chunk \<noteq> []"
        then show "P api key w' (issued @ [(current_start, current_end)]) (all_candles @ chunk) current_start"
          by (rule "1.IH"(1) [OF True Inr fc refl])
      next
        assume "chunk = []" "\<not> year current_end < 2010"
        then show "P api key w' (issued @ [(current_start, current_end)]) all_candles current_start"
          using "1.IH"(2) [OF True Inr fc refl] by simp
      qed
    qed
  qed
qed

lemma app_loop_total:
  "fst current_end \<le> MAXORDINAL
     \<Longrightarrow> \<exists>cs ws w'. app_loop api key w issued all_candles current_end = Inr (cs, ws, w')"
proof (induction api key w issued all_candles current_end rule: app_loop_cases)
  case (exit api key w issued all_candles current_end)
  then show ?case by (simp add: app_loop_exit)
next
  case (overflow api key w issued all_candles current_end err)
  then show ?case
    by (simp add: sub_days_def STOP_YEAR_def year_ge_2000 CHUNK_SIZE_DAYS_def split: if_splits)
next
  case (step api key w issued all_candles current_end current_start chunk_candles w')
  from sub_days_Inr [OF step(2)] have "fst current_start \<le> MAXORDINAL" by simp
  with step show ?case by (simp add: app_loop_step)
qed

lemma app_loop_issued_prefix:
  "app_loop api key w issued all_candles current_end = Inr (cs, ws, w')
     \<Longrightarrow> \<exists>rest. ws = issued @ rest"
proof (induction api key w issued all_candles current_end rule: app_loop_cases)
  case (exit api key w issued all_candles current_end)
  then show ?case by (simp add: app_loop_exit)
next
  case (overflow api key w issued all_candles current_end err)
  then show ?case by (simp add: app_loop_overflow)
next
  case (step api key w issued all_candles current_end current_start chunk_candles w2)
  then show ?case by (auto simp: app_loop_step split: if_splits)
qed

lemma div_1095_shift: "(x - 1095) div 1095 = x div 1095 - (1::int)"
proof -
  have "((x - 1095) + 1095) div 1095 = (x - 1095) div 1095 + 1" by (rule div_add_self2) simp
  then show ?thesis by simp
qed

lemma windows_expected_step:
  assumes "733773 \<le> fst d"
  shows "windows_expected d = Suc (windows_expected (fst d - 1095, t))"
proof (cases "733773 \<le> fst d - 1095")
  case True
  then have "0 \<le> (fst d - 1095 - 733773) div 1095" by simp
  moreover have "(fst d - 733773) div 1095 = (fst d - 1095 - 733773) div 1095 + 1"
    using div_1095_shift [of "fst d - 733773"] by (simp add: algebra_simps)
  ultimately show ?thesis using True assms by (simp add: windows_expected_def nat_add_distrib)
next
  case False
  with assms have "(fst d - 733773) div 1095 = 0" by simp
  with False assms show ?thesis by (simp add: windows_expected_def)
qed

lemma app_loop_synthetic_count_aux:
  "app_loop api key w issued all_candles current_end = Inr (rs, ws, w')
     \<Longrightarrow> api = synthetic_api c cs
     \<Longrightarrow> length ws = length issued + windows_expected current_end"
proof (induction api key w issued all_candles current_end rule: app_loop_cases)
  case (exit api key w issued all_candles current_end)
  then show ?case
    by (simp add: app_loop_exit windows_expected_def STOP_YEAR_def year_ge_2000)
next
  case (overflow api key w issued all_candles current_end err)
  then show ?case by (simp add: app_loop_overflow)
next
  case (step api key w issued all_candles current_end current_start chunk_candles w2)
  note api = \<open>api = synthetic_api c cs\<close>
  from sub_days_Inr [OF step(2)]
  have cs: "current_start = (fst current_end - 1095, snd current_end)"
    by (simp add: CHUNK_SIZE_DAYS_def)
  have ge: "730120 \<le> fst current_end" using step(1) by (simp add: STOP_YEAR_def year_ge_2000)
  have chunk: "chunk_candles = (if 2015 \<le> year current_end then c # cs else [])"
    using step(3) by (simp add: api fetch_chunk_synthetic)
  show ?case
  proof (cases "year current_end < 2010")
    case True
    then have "\<not> 2015 \<le> year current_end" by simp
    with chunk have "chunk_candles = []" by simp
    with True step(6) have "ws = issued @ [(current_start, current_end)]"
      by (simp add: app_loop_step [OF step(1,2,3)])
    moreover have "windows_expected current_end = 1"
      using True ge by (simp add: windows_expected_def year_lt_2010)
    ultimately show ?thesis by simp
  next
    case False
    then have ge2: "733773 \<le> fst current_end" by (simp add: year_lt_2010)
    have "length ws = length (issued @ [(current_start, current_end)]) + windows_expected current_start"
    proof (cases "chunk_candles = []")
      case True
      with step(6) False
      have "app_loop api key w2 (issued @ [(current_start, current_end)]) all_candles current_start
              = Inr (rs, ws, w')"
        by (simp add: app_loop_step [OF step(1,2,3)])
      from step(5) [OF True False this api] show ?thesis .
    next
      case ne: False
      with step(6)
      have "app_loop api key w2 (issued @ [(current_start, current_end)])
              (all_candles @ chunk_candles) current_start = Inr (rs, ws, w')"
        by (simp add: app_loop_step [OF step(1,2,3)])
      from step(4) [OF ne this api] show ?thesis .
    qed
    then show ?thesis
      using windows_expected_step [OF ge2, of "snd current_end"] by (simp add: cs)
  qed
qed

lemma app_loop_synthetic_count:
  "app_loop (synthetic_api c cs) key w issued all_candles current_end = Inr (rs, ws, w')
     \<Longrightarrow> length ws = length issued + windows_expected current_end"
  by (rule app_loop_synthetic_count_aux [OF _ refl])

lemma windows_expected_le: "fst d \<le> MAXORDINAL \<Longrightarrow> windows_expected d \<le> 2667"
proof -
  assume a: "fst d \<le> MAXORDINAL"
  have "(fst d - 733773) div 1095 \<le> (3652059 - 733773) div 1095"
    by (rule zdiv_mono1) (use a in \<open>simp_all add: MAXORDINAL_def\<close>)
  then have "(fst d - 733773) div 1095 \<le> 2665" by simp
  then show ?thesis by (auto simp: windows_expected_def)
qed

lemma chained_snoc:
  "chained ws \<Longrightarrow> (ws \<noteq> [] \<Longrightarrow> fst (last ws) = e) \<Longrightarrow> chained (ws @ [(s, e)])"
  by (induction ws rule: chained.induct) auto

lemma app_loop_chained:
  "app_loop api key w issued all_candles current_end = Inr (cs, ws, w')
     \<Longrightarrow> chained issued \<Longrightarrow> (issued \<noteq> [] \<Longrightarrow> fst (last issued) = current_end)
     \<Longrightarrow> chained ws"
proof (induction api key w issued all_candles current_end rule: app_loop_cases)
  case (exit api key w issued all_candles current_end)
  then show ?case by (simp add: app_loop_exit)
next
  case (overflow api key w issued all_candles current_end err)
  then show ?case by (simp add: app_loop_overflow)
next
  case (step api key w issued all_candles current_end current_start chunk_candles w2)
  have c: "chained (issued @ [(current_start, current_end)])"
    using step(7,8) by (rule chained_snoc)
  show ?case
  proof (cases "chunk_candles = []")
    case True
    show ?thesis
    proof (cases "year current_end < 2010")
      case y: True
      with True step(6) c show ?thesis by (simp add: app_loop_step [OF step(1,2,3)])
    next
      case y: False
      with True step(6) have "app_loop api key w2 (issued @ [(current_start, current_end)]) all_candles current_start = Inr (cs, ws, w')"
        by (simp add: app_loop_step [OF step(1,2,3)])
      from step(5) [OF True y this c] show ?thesis by simp
    qed
  next
    case False
    with step(6) have "app_loop api key w2 (issued @ [(current_start, current_end)]) (all_candles @ chunk_candles) current_start = Inr (cs, ws, w')"
      by (simp add: app_loop_step [OF step(1,2,3)])
    from step(4) [OF False this c] show ?thesis by simp
  qed
qed

lemma app_loop_no_data:
  "app_loop api key w issued all_candles current_end = Inr (cs, ws, w')
     \<Longrightarrow> \<forall>w key s e. \<exists>w'. fetch_chunk api w key s e = Inr ([], w')
     \<Longrightarrow> cs = all_candles"
proof (induction api key w issued all_candles current_end rule: app_loop_cases)
  case (exit api key w issued all_candles current_end)
  then show ?case by (simp add: app_loop_exit)
next
  case (overflow api key w issued all_candles current_end err)
  then show ?case by (simp add: app_loop_overflow)
next
  case (step api key w issued all_candles current_end current_start chunk_candles w2)
  from step(3,7) have e: "chunk_candles = []" by (metis Inr_inject prod.inject)
  show ?case
  proof (cases "year current_end < 2010")
    case True
    with e step(6) show ?thesis by (simp add: app_loop_step [OF step(1,2,3)])
  next
    case False
    with e step(6)
    have "app_loop api key w2 (issued @ [(current_start, current_end)]) all_candles current_start
            = Inr (cs, ws, w')"
      by (simp add: app_loop_step [OF step(1,2,3)])
    from step(5) [OF e False this step(7)] show ?thesis .
  qed
qed

lemma app_loop_boundary_run:
  "app_loop boundary_api key () [] [] (731300, 0) =
     Inr ([Candle (730205, 0) 0 0 0 0 0 0, Candle (731300, 0) 0 0 0 0 0 0,
           Candle (729110, 0) 0 0 0 0 0 0, Candle (730205, 0) 0 0 0 0 0 0],
          [((730205, 0), (731300, 0)), ((729110, 0), (730205, 0))], ())"
  by (simp add: app_loop.simps STOP_YEAR_def year_ge_2000 year_lt_2010 sub_days_def
      CHUNK_SIZE_DAYS_def MAXORDINAL_def fetch_chunk_def fetch_chunk_try_def window_request_def boundary_api_def
      strftime_Ymd_def)

section \<open>The loop of app2.py\<close>

lemma app2_loop_exit:
  "\<not> START_DATE \<le> current_end
     \<Longrightarrow> app2_loop api key w issued all_candles current_end = Inr (all_candles, issued, w)"
  by (subst app2_loop.simps) simp

lemma app2_loop_overflow:
  "START_DATE \<le> current_end \<Longrightarrow> sub_days current_end CHUNK_SIZE_DAYS = Inl err
     \<Longrightarrow> app2_loop api key w issued all_candles current_end = Inl err"
  by (subst app2_loop.simps) simp

lemma app2_loop_step:
  assumes "START_DATE \<le> current_end"
    and "sub_days current_end CHUNK_SIZE_DAYS = Inr d"
    and "current_start = max d START_DATE"
    and "fetch_chunk api w key current_start current_end = Inr (chunk_candles, w')"
    and "all_candles' = (if chunk_candles \<noteq> [] then all_candles @ chunk_candles else all_candles)"
  shows "app2_loop api key w issued all_candles current_end =
           (if current_start \<le> START_DATE then
              Inr (all_candles', issued @ [(current_start, current_end)], w')
            else
              app2_loop api key w' (issued @ [(current_start, current_end)]) all_candles'
                (fst current_start - 1, snd current_start))"
proof -
  from sub_days_Inr [OF assms(2)] assms(1)
  have "fst current_start \<le> MAXORDINAL"
    by (simp add: assms(3) max_START_DATE START_DATE_le CHUNK_SIZE_DAYS_def MAXORDINAL_def)
  moreover have "START_DATE \<le> current_start" by (simp add: assms(3))
  ultimately have "sub_days current_start 1 = Inr (fst current_start - 1, snd current_start)"
    by (rule sub_days_one [rotated])
  then show ?thesis
    using assms by (subst app2_loop.simps) (simp add: Let_def)
qed

lemma app2_loop_cases [consumes 0, case_names exit overflow step]:
  assumes exit: "\<And>api key w issued all_candles current_end.
      \<not> START_DATE \<le> current_end \<Longrightarrow> P api key w issued all_candles current_end"
    and overflow: "\<And>api key w issued all_candles current_end err.
      START_DATE \<le> current_end \<Longrightarrow> sub_days current_end CHUNK_SIZE_DAYS = Inl err
        \<Longrightarrow> P api key w issued all_candles current_end"
    and step: "\<And>api key w issued all_candles current_end d current_start chunk_candles w' all_candles'.
      START_DATE \<le> current_end \<Longrightarrow> sub_days current_end CHUNK_SIZE_DAYS = Inr d
        \<Longrightarrow> current_start = max d START_DATE
        \<Longrightarrow> fetch_chunk api w key current_start current_end = Inr (chunk_candles, w')
        \<Longrightarrow> all_candles' = (if chunk_candles \<noteq> [] then all_candles @ chunk_candles else all_candles)
        \<Longrightarrow> (\<not> current_start \<le> START_DATE \<Longrightarrow>
              P api key w' (issued @ [(current_start, current_end)]) all_candles'
                (fst current_start - 1, snd current_start))
        \<Longrightarrow> P api key w issued all_candles current_end"
  shows "P api key w issued all_candles current_end"
proof (induction api key w issued all_candles current_end rule: app2_loop.induct)
  case (1 api key w issued all_candles current_end)
  show ?case
  proof (cases "START_DATE \<le> current_end")
    case False
    then show ?thesis by (rule exit)
  next
    case True
    show ?thesis
    proof (cases "sub_days current_end CHUNK_SIZE_DAYS")
      case (Inl err)
      with True show ?thesis by (rule overflow)
    next
      case (Inr d)
      define current_start where "current_start = max d START_DATE"
      obtain chunk w' where fc: "fetch_chunk api w key current_start current_end = Inr (chunk, w')"
        using fetch_chunk_Inr [of api w key current_start current_end] by auto
      define all_candles' where
        "all_candles' = (if chunk \<noteq> [] then all_candles @ chunk else all_candles)"
      from sub_days_Inr [OF Inr] True
      have "fst current_start \<le> MAXORDINAL"
        by (simp add: current_start_def max_START_DATE START_DATE_le CHUNK_SIZE_DAYS_def MAXORDINAL_def)
      moreover have "START_DATE \<le> current_start" by (simp add: current_start_def)
      ultimately have sd1: "sub_days current_start 1 = Inr (fst current_start - 1, snd current_start)"
        by (rule sub_days_one [rotated])
      show ?thesis
      proof (rule step [OF True Inr current_start_def fc all_candles'_def])
        assume "\<not> current_start \<le> START_DATE"
        then show "P api key w' (issued @ [(current_start, current_end)]) all_candles'
                (fst current_start - 1, snd current_start)"
          by (rule "1.IH" [OF True Inr current_start_def fc refl all_candles'_def sd1])
      qed
    qed
  qed
qed

lemma adjacent_Cons:
  "adjacent ws \<Longrightarrow> (ws \<noteq> [] \<Longrightarrow> snd (hd ws) = (fst (fst w) - 1, snd (fst w)))
     \<Longrightarrow> adjacent (w # ws)"
  by (cases ws) auto

lemma app2_loop_windows:
  "fst current_end \<le> MAXORDINAL \<Longrightarrow>
   \<exists>cs ws w'. app2_loop api key w issued all_candles current_end = Inr (cs, issued @ ws, w')
     \<and> (\<forall>x \<in> set ws. START_DATE \<le> fst x)
     \<and> (\<Union>x \<in> set ws. {fst (fst x) .. fst (snd x)}) = {733773 .. fst current_end}
     \<and> adjacent ws
     \<and> (ws \<noteq> [] \<longleftrightarrow> START_DATE \<le> current_end)
     \<and> (ws \<noteq> [] \<longrightarrow> snd (hd ws) = current_end \<and> fst (fst (last ws)) = 733773)"
proof (induction api key w issued all_candles current_end rule: app2_loop_cases)
  case (exit api key w issued all_candles current_end)
  then have "fst current_end < 733773" by (simp add: START_DATE_le)
  with exit show ?case by (simp add: app2_loop_exit)
next
  case (overflow api key w issued all_candles current_end err)
  then show ?case
    by (simp add: sub_days_def START_DATE_le CHUNK_SIZE_DAYS_def split: if_splits)
next
  case (step api key w issued all_candles current_end d current_start chunk_candles w2 all_candles')
  note eq = app2_loop_step [OF step(1-5)]
  from sub_days_Inr [OF step(2)] have d: "fst d = fst current_end - 1095"
    by (simp add: CHUNK_SIZE_DAYS_def)
  have ge: "733773 \<le> fst current_end" using step(1) by (simp add: START_DATE_le)
  have cs: "733773 \<le> fst current_start" "fst current_start \<le> fst current_end"
    using d ge by (simp_all add: step(3) max_START_DATE)
  have cs': "START_DATE \<le> current_start" by (simp add: step(3))
  show ?case
  proof (cases "current_start \<le> START_DATE")
    case True
    with cs have "fst current_start = 733773" by (auto simp: le_START_DATE)
    with True cs' show ?thesis
      by (simp add: eq step(1))
  next
    case False
    let ?e = "(fst current_start - 1, snd current_start)"
    have "fst ?e \<le> MAXORDINAL" using cs step(7) by simp
    from step(6) [OF False this]
    obtain rs rest w' where
      r: "app2_loop api key w2 (issued @ [(current_start, current_end)]) all_candles' ?e
            = Inr (rs, (issued @ [(current_start, current_end)]) @ rest, w')"
      and r1: "\<forall>x \<in> set rest. START_DATE \<le> fst x"
      and r2: "(\<Union>x \<in> set rest. {fst (fst x) .. fst (snd x)}) = {733773 .. fst ?e}"
      and r3: "adjacent rest"
      and r4: "rest \<noteq> [] \<longleftrightarrow> START_DATE \<le> ?e"
      and r5: "rest \<noteq> [] \<longrightarrow> snd (hd rest) = ?e \<and> fst (fst (last rest)) = 733773"
      by blast
    let ?ws = "(current_start, current_end) # rest"
    have a: "app2_loop api key w issued all_candles current_end = Inr (rs, issued @ ?ws, w')"
      using False r by (simp add: eq)
    have b: "\<forall>x \<in> set ?ws. START_DATE \<le> fst x" using r1 cs' by simp
    have "{fst current_start .. fst current_end} \<union> {733773 .. fst current_start - 1}
            = {733773 .. fst current_end}"
      using cs by auto
    then have c: "(\<Union>x \<in> set ?ws. {fst (fst x) .. fst (snd x)}) = {733773 .. fst current_end}"
      using r2 by simp
    have d': "adjacent ?ws" using r3 r5 by (intro adjacent_Cons) simp_all
    have e: "fst (fst (last ?ws)) = 733773"
    proof (cases "rest = []")
      case True
      with r4 have "fst current_start - 1 < 733773" by (simp add: START_DATE_le)
      with cs True show ?thesis by simp
    next
      case False
      with r5 show ?thesis by simp
    qed
    show ?thesis
      using a b c d' e step(1) by (intro exI [of _ rs] exI [of _ ?ws] exI [of _ w']) simp
  qed
qed

lemma app2_loop_same_windows:
  "fst current_end \<le> MAXORDINAL \<Longrightarrow>
   windows_of (app2_loop api key w issued all_candles current_end) = issued @ ws \<Longrightarrow>
   windows_of (app2_loop api2 key2 w2 issued2 all_candles2 current_end) = issued2 @ ws"
proof (induction api key w issued all_candles current_end arbitrary: w2 issued2 all_candles2 ws
       rule: app2_loop_cases)
  case (exit api key w issued all_candles current_end)
  then show ?case by (simp add: app2_loop_exit windows_of_def)
next
  case (overflow api key w issued all_candles current_end err)
  then show ?case
    by (simp add: sub_days_def START_DATE_le CHUNK_SIZE_DAYS_def split: if_splits)
next
  case (step api key w issued all_candles current_end d current_start chunk_candles w' all_candles')
  obtain chunk2 w2' where fc2: "fetch_chunk api2 w2 key2 current_start current_end = Inr (chunk2, w2')"
    using fetch_chunk_Inr [of api2 w2 key2 current_start current_end] by auto
  note eq = app2_loop_step [OF step(1-5)]
  note eq2 = app2_loop_step [OF step(1-3) fc2 refl]
  have cs: "fst current_start \<le> fst current_end"
    using sub_days_Inr [OF step(2)] step(1)
    by (simp add: step(3) max_START_DATE START_DATE_le CHUNK_SIZE_DAYS_def)
  show ?case
  proof (cases "current_start \<le> START_DATE")
    case True
    with step(8) show ?thesis by (simp add: eq eq2 windows_of_def)
  next
    case False
    let ?e = "(fst current_start - 1, snd current_start)"
    have le: "fst ?e \<le> MAXORDINAL" using cs step(7) by simp
    obtain rs rest wr where
      r: "app2_loop api key w' (issued @ [(current_start, current_end)]) all_candles' ?e
            = Inr (rs, (issued @ [(current_start, current_end)]) @ rest, wr)"
      using app2_loop_windows [OF le, of api key w' "issued @ [(current_start, current_end)]" all_candles']
      by blast
    with False step(8) have ws: "ws = (current_start, current_end) # rest"
      by (simp add: eq windows_of_def)
    from r have "windows_of (app2_loop api key w' (issued @ [(current_start, current_end)]) all_candles' ?e)
            = (issued @ [(current_start, current_end)]) @ rest"
      by (simp add: windows_of_def)
    from step(6) [OF False le this]
    show ?thesis using False by (simp add: eq2 ws)
  qed
qed

lemma app2_loop_no_data:
  "app2_loop api key w issued all_candles current_end = Inr (cs, ws, w')
     \<Longrightarrow> \<forall>w key s e. \<exists>w'. fetch_chunk api w key s e = Inr ([], w')
     \<Longrightarrow> cs = all_candles"
proof (induction api key w issued all_candles current_end rule: app2_loop_cases)
  case (exit api key w issued all_candles current_end)
  then show ?case by (simp add: app2_loop_exit)
next
  case (overflow api key w issued all_candles current_end err)
  then show ?case by (simp add: app2_loop_overflow)
next
  case (step api key w issued all_candles current_end d current_start chunk_candles w2 all_candles')
  from step(4,8) have e: "chunk_candles = []" by (metis Inr_inject prod.inject)
  with step(5) have a: "all_candles' = all_candles" by simp
  note eq = app2_loop_step [OF step(1-5)]
  show ?case
  proof (cases "current_start \<le> START_DATE")
    case True
    with step(7) a show ?thesis by (simp add: eq)
  next
    case False
    with step(7)
    have "app2_loop api key w2 (issued @ [(current_start, current_end)]) all_candles'
            (fst current_start - 1, snd current_start) = Inr (cs, ws, w')"
      by (simp add: eq)
    from step(6) [OF False this step(8)] a show ?thesis by simp
  qed
qed

section \<open>Normalisation\<close>

lemma duplicated_after_set: "set (duplicated_after f seen xs) \<subseteq> set xs"
  by (induction xs arbitrary: seen) auto

lemma duplicated_after_unseen: "\<forall>x \<in> set (duplicated_after f seen xs). f x \<notin> set seen"
proof (induction xs arbitrary: seen)
  case Nil
  show ?case by simp
next
  case (Cons a xs)
  from Cons [of seen] Cons [of "f a # seen"] show ?case by auto
qed

lemma duplicated_after_distinct: "distinct (map f (duplicated_after f seen xs))"
proof (induction xs arbitrary: seen)
  case Nil
  show ?case by simp
next
  case (Cons a xs)
  from Cons [of seen] Cons [of "f a # seen"] duplicated_after_unseen [of f "f a # seen" xs]
  show ?case by auto
qed

lemma duplicated_after_sorted:
  "sorted (map f xs) \<Longrightarrow> sorted (map f (duplicated_after f seen xs))"
proof (induction xs arbitrary: seen)
  case Nil
  show ?case by simp
next
  case (Cons x xs)
  then show ?case using duplicated_after_set [of f _ xs] by (auto simp: subset_iff)
qed

lemma normalized_sorted_distinct:
  "distinct (map f (drop_duplicates f (sort_values f df)))
   \<and> sorted (map f (drop_duplicates f (sort_values f df)))"
  by (simp add: drop_duplicates_def sort_values_def duplicated_after_distinct
      duplicated_after_sorted)

lemma convert_column_Inr_iff:
  "convert_column f xs = Inr ys \<Longrightarrow> list_all2 (\<lambda>x y. f x = Inr y) xs ys"
  by (induction xs arbitrary: ys) (auto split: sum.splits)

lemma convert_column_returns:
  "\<forall>x \<in> set xs. \<not> isl (f x) \<Longrightarrow> \<exists>ys. convert_column f xs = Inr ys"
proof (induction xs)
  case Nil
  show ?case by simp
next
  case (Cons x xs)
  then obtain ys where "convert_column f xs = Inr ys" by auto
  moreover from Cons.prems obtain y where "f x = Inr y" by (cases "f x") auto
  ultimately show ?case by simp
qed

lemma list_all2_in_set:
  "list_all2 R xs ys \<Longrightarrow> y \<in> set ys \<Longrightarrow> \<exists>x \<in> set xs. R x y"
  by (induction rule: list_all2_induct) auto

lemma convert_Date_fields:
  "convert_Date f c = Inr c' \<Longrightarrow>
     Open c' = Open c \<and> High c' = High c \<and> Low c' = Low c \<and> Close c' = Close c
     \<and> Volume c' = Volume c \<and> Open_Interest c' = Open_Interest c"
  by (cases c) (auto split: sum.splits)

lemma convert_OHLC_fields:
  "convert_OHLC f c = Inr c' \<Longrightarrow> Volume c' = Volume c \<and> Open_Interest c' = Open_Interest c"
  by (cases c) (auto split: sum.splits)

lemma formatting_returns:
  assumes "\<forall>c \<in> set df. parses pd c"
  shows "\<exists>df'. formatting pd df = Inr df'"
proof -
  have "\<forall>c \<in> set df. \<not> isl (convert_Date (to_datetime pd) c)"
  proof
    fix c assume "c \<in> set df"
    with assms have "parses pd c" by simp
    then show "\<not> isl (convert_Date (to_datetime pd) c)"
      by (cases c) (auto simp: parses_def split: sum.splits)
  qed
  then obtain df1 where 1: "convert_column (convert_Date (to_datetime pd)) df = Inr df1"
    using convert_column_returns by blast
  have "\<forall>c1 \<in> set df1. \<not> isl (convert_OHLC (astype_float pd) c1)"
  proof
    fix c1 assume "c1 \<in> set df1"
    with 1 obtain c where c: "c \<in> set df" "convert_Date (to_datetime pd) c = Inr c1"
      by (auto dest!: convert_column_Inr_iff dest: list_all2_in_set)
    with assms have "parses pd c" by simp
    with convert_Date_fields [OF c(2)] show "\<not> isl (convert_OHLC (astype_float pd) c1)"
      by (cases c1) (auto simp: parses_def split: sum.splits)
  qed
  then obtain df2 where 2: "convert_column (convert_OHLC (astype_float pd)) df1 = Inr df2"
    using convert_column_returns by blast
  have "\<forall>c2 \<in> set df2. \<not> isl (convert_Volume_OI (astype_int pd) c2)"
  proof
    fix c2 assume "c2 \<in> set df2"
    with 2 obtain c1 where c1: "c1 \<in> set df1" "convert_OHLC (astype_float pd) c1 = Inr c2"
      by (auto dest!: convert_column_Inr_iff dest: list_all2_in_set)
    with 1 obtain c where c: "c \<in> set df" "convert_Date (to_datetime pd) c = Inr c1"
      by (auto dest!: convert_column_Inr_iff dest: list_all2_in_set)
    with assms have "parses pd c" by simp
    with convert_Date_fields [OF c(2)] convert_OHLC_fields [OF c1(2)]
    show "\<not> isl (convert_Volume_OI (astype_int pd) c2)"
      by (cases c2) (auto simp: parses_def split: sum.splits)
  qed
  then obtain df3 where "convert_column (convert_Volume_OI (astype_int pd)) df2 = Inr df3"
    using convert_column_returns by blast
  with 1 2 show ?thesis by (simp add: formatting_def)
qed

lemma app_process_single_stock_distinct:
  "app_process_single_stock pd api w END_DATE symbol isin = Inr (s, df) \<Longrightarrow> distinct (map Date df)"
  by (auto simp: app_process_single_stock_def app_dataframe_def normalized_sorted_distinct
      split: sum.splits if_splits)

section \<open>Runs without data\<close>

lemma app_process_single_stock_no_data:
  assumes "\<forall>w key s e. \<exists>w'. fetch_chunk api w key s e = Inr ([], w')"
    and "fst END_DATE \<le> MAXORDINAL"
  shows "app_process_single_stock pd api w END_DATE symbol isin = Inr (symbol, [])"
proof -
  obtain cs ws w' where r: "app_loop api (get_instrument_key isin) w [] [] END_DATE = Inr (cs, ws, w')"
    using app_loop_total [OF assms(2), of api "get_instrument_key isin" w "[]" "[]"] by auto
  from app_loop_no_data [OF r assms(1)] r show ?thesis
    by (simp add: app_process_single_stock_def app_dataframe_def)
qed

lemma app2_process_single_stock_no_data:
  assumes "\<forall>w key s e. \<exists>w'. fetch_chunk api w key s e = Inr ([], w')"
    and "fst END_DATE \<le> MAXORDINAL"
  shows "app2_process_single_stock pd api w END_DATE symbol isin = Inr (symbol, [])"
proof -
  obtain cs ws w' where r: "app2_loop api (get_instrument_key isin) w [] [] END_DATE = Inr (cs, ws, w')"
    using app2_loop_windows [OF assms(2), of api "get_instrument_key isin" w "[]" "[]"] by auto
  from app2_loop_no_data [OF r assms(1)] r show ?thesis
    by (simp add: app2_process_single_stock_def app2_dataframe_def)
qed

lemma app_collect_no_data:
  "app_collect final_results (map (\<lambda>(symb, isin). (symb, Inr (symb, []))) completed)
     = (final_results, map (\<lambda>(symb, isin). NoDataFound symb) completed)"
  by (induction completed) (auto simp: case_prod_beta)

lemma app2_collect_no_data:
  "app2_collect all_data (map (\<lambda>(symb, isin). (symb, Inr (symb, []))) completed)
     = (all_data, map (\<lambda>(symb, isin). NoDataFound symb) completed)"
  by (induction completed) (auto simp: case_prod_beta)

section \<open>The properties of the specification\<close>

subsection \<open>Backward pagination\<close>

text \<open>
  C1. Take a window the loop fetches (the loop guard holds for its end) and let the fetcher
  return nothing for it, whatever the fetcher is. The loop stops right there, this window
  being the last one fetched and the candles unchanged, exactly when the year of the
  window's end is before 2010. When the year is 2010 or later the loop goes on: the next
  window is fetched and its end is this window's start.
\<close>

theorem app_empty_window_stops_iff_before_2010:
  assumes guard: "STOP_YEAR \<le> year current_end"
    and sd: "sub_days current_end CHUNK_SIZE_DAYS = Inr current_start"
    and empty: "fetch_chunk api w key current_start current_end = Inr ([], w')"
  shows "(app_loop api key w issued all_candles current_end
            = Inr (all_candles, issued @ [(current_start, current_end)], w')
          \<longleftrightarrow> year current_end < 2010)
       \<and> (2010 \<le> year current_end \<longrightarrow>
            (\<exists>next_start rest cs w''.
               sub_days current_start CHUNK_SIZE_DAYS = Inr next_start
               \<and> app_loop api key w issued all_candles current_end
                   = Inr (cs, issued @ [(current_start, current_end), (next_start, current_start)] @ rest,
                          w'')))"
proof -
  have stop: "app_loop api key w issued all_candles current_end
                = Inr (all_candles, issued @ [(current_start, current_end)], w')"
    if "year current_end < 2010"
    using that by (simp add: app_loop_step [OF guard sd empty])
  have probe: "\<exists>next_start rest cs w''.
       sub_days current_start CHUNK_SIZE_DAYS = Inr next_start
       \<and> app_loop api key w issued all_candles current_end
           = Inr (cs, issued @ [(current_start, current_end), (next_start, current_start)] @ rest, w'')"
    if y: "2010 \<le> year current_end"
  proof -
    let ?issued = "issued @ [(current_start, current_end)]"
    have e: "app_loop api key w issued all_candles current_end
               = app_loop api key w' ?issued all_candles current_start"
      using y by (simp add: app_loop_step [OF guard sd empty])
    from sub_days_Inr [OF sd] y
    have s: "fst current_start \<le> MAXORDINAL" "732678 \<le> fst current_start"
      by (simp_all add: year_ge_2010 CHUNK_SIZE_DAYS_def)
    then have guard': "STOP_YEAR \<le> year current_start"
      by (simp add: STOP_YEAR_def year_ge_2000)
    define next_start where "next_start = (fst current_start - 1095, snd current_start)"
    have sd': "sub_days current_start CHUNK_SIZE_DAYS = Inr next_start"
      using s by (simp add: sub_days_chunk next_start_def)
    obtain chunk w2 where fc: "fetch_chunk api w' key next_start current_start = Inr (chunk, w2)"
      using fetch_chunk_Inr [of api w' key next_start current_start] by auto
    have le: "fst next_start \<le> MAXORDINAL" using s by (simp add: next_start_def)
    let ?issued2 = "?issued @ [(next_start, current_start)]"
    have "\<exists>cs rest w''. app_loop api key w' ?issued all_candles current_start
            = Inr (cs, ?issued2 @ rest, w'')"
    proof (cases "chunk = [] \<and> year current_start < 2010")
      case True
      then show ?thesis by (simp add: app_loop_step [OF guard' sd' fc])
    next
      case False
      define acc where "acc = (if chunk \<noteq> [] then all_candles @ chunk else all_candles)"
      from False have r: "app_loop api key w' ?issued all_candles current_start
               = app_loop api key w2 ?issued2 acc next_start"
        by (auto simp: app_loop_step [OF guard' sd' fc] acc_def)
      obtain cs ws w'' where t: "app_loop api key w2 ?issued2 acc next_start = Inr (cs, ws, w'')"
        using app_loop_total [OF le, of api key w2 ?issued2 acc] by auto
      from app_loop_issued_prefix [OF t] obtain rest where "ws = ?issued2 @ rest" by auto
      with r t show ?thesis by auto
    qed
    with e sd' show ?thesis by auto
  qed
  show ?thesis
  proof (intro conjI impI iffI)
    assume "app_loop api key w issued all_candles current_end
              = Inr (all_candles, issued @ [(current_start, current_end)], w')"
    then show "year current_end < 2010"
      using probe by (cases "2010 \<le> year current_end") auto
  next
    assume "year current_end < 2010"
    then show "app_loop api key w issued all_candles current_end
              = Inr (all_candles, issued @ [(current_start, current_end)], w')"
      by (rule stop)
  next
    assume "2010 \<le> year current_end"
    then show "\<exists>next_start rest cs w''.
       sub_days current_start CHUNK_SIZE_DAYS = Inr next_start
       \<and> app_loop api key w issued all_candles current_end
           = Inr (cs, issued @ [(current_start, current_end), (next_start, current_start)] @ rest, w'')"
      by (rule probe)
  qed
qed

theorem app_empty_window_stops_iff_before_2010_witness:
  "app_loop (empty_api :: (unit, nat) api) ''K'' () [] [] (733000, 0) = Inr ([], [((731905, 0), (733000, 0))], ())
   \<and> (\<exists>rest cs w''. app_loop (empty_api :: (unit, nat) api) ''K'' () [] [] (734000, 0)
          = Inr (cs, [((732905, 0), (734000, 0)), ((731810, 0), (732905, 0))] @ rest, w''))"
proof -
  have f: "fetch_chunk (empty_api :: (unit, nat) api) () ''K'' s e = Inr ([], ())" for s e
    by (simp add: fetch_chunk_def fetch_chunk_try_def window_request_def empty_api_def)
  have g1: "STOP_YEAR \<le> year (733000, 0)" by (simp add: STOP_YEAR_def year_ge_2000)
  have s1: "sub_days (733000, 0) CHUNK_SIZE_DAYS = Inr (731905, 0)"
    by (simp add: sub_days_def CHUNK_SIZE_DAYS_def MAXORDINAL_def)
  have y1: "year (733000, 0) < 2010" by (simp add: year_lt_2010)
  have A: "app_loop (empty_api :: (unit, nat) api) ''K'' () [] [] (733000, 0) = Inr ([], [((731905, 0), (733000, 0))], ())"
    using app_empty_window_stops_iff_before_2010 [OF g1 s1 f, of "[]" "[]"] y1 by simp
  have g2: "STOP_YEAR \<le> year (734000, 0)" by (simp add: STOP_YEAR_def year_ge_2000)
  have s2: "sub_days (734000, 0) CHUNK_SIZE_DAYS = Inr (732905, 0)"
    by (simp add: sub_days_def CHUNK_SIZE_DAYS_def MAXORDINAL_def)
  have s3: "sub_days (732905, 0) CHUNK_SIZE_DAYS = Inr (731810, 0)"
    by (simp add: sub_days_def CHUNK_SIZE_DAYS_def MAXORDINAL_def)
  have y2: "2010 \<le> year (734000, 0)" by (simp add: year_ge_2010)
  have B: "\<exists>rest cs w''. app_loop (empty_api :: (unit, nat) api) ''K'' () [] [] (734000, 0)
          = Inr (cs, [((732905, 0), (734000, 0)), ((731810, 0), (732905, 0))] @ rest, w'')"
    using app_empty_window_stops_iff_before_2010 [OF g2 s2 f, of "[]" "[]"] y2
    by (simp add: s3)
  from A B show ?thesis by simp
qed

text \<open>
  C2. For every fetcher and every valid start date, the loop of app2.py returns, and the
  windows it fetched: all start at or after the floor date 2010-01-01; their calendar-day
  spans together are exactly the days from the floor date to the start date of the run,
  each window ending the day before the previous one starts; when the run starts at or
  after the floor, the first window ends at the start date of the run and the last one
  starts on the floor date; and they are the same windows for every other fetcher, so no
  empty answer ends the loop early.
\<close>

theorem app2_windows_cover_floor_to_now:
  assumes "fst END_DATE \<le> MAXORDINAL"
  shows "\<exists>cs ws w'.
           app2_loop api key w [] [] END_DATE = Inr (cs, ws, w')
           \<and> (\<forall>x \<in> set ws. START_DATE \<le> fst x)
           \<and> (\<Union>x \<in> set ws. {strftime_Ymd (fst x) .. strftime_Ymd (snd x)})
                = {strftime_Ymd START_DATE .. strftime_Ymd END_DATE}
           \<and> adjacent ws
           \<and> (START_DATE \<le> END_DATE \<longrightarrow>
                 ws \<noteq> [] \<and> snd (hd ws) = END_DATE
                 \<and> strftime_Ymd (fst (last ws)) = strftime_Ymd START_DATE)
           \<and> (\<forall>api2 key2 w2. windows_of (app2_loop api2 key2 w2 [] [] END_DATE) = ws)"
proof -
  from app2_loop_windows [OF assms, of api key w "[]" "[]"]
  obtain cs ws w' where
    r: "app2_loop api key w [] [] END_DATE = Inr (cs, ws, w')"
    and r1: "\<forall>x \<in> set ws. START_DATE \<le> fst x"
    and r2: "(\<Union>x \<in> set ws. {fst (fst x) .. fst (snd x)}) = {733773 .. fst END_DATE}"
    and r3: "adjacent ws"
    and r4: "ws \<noteq> [] \<longleftrightarrow> START_DATE \<le> END_DATE"
    and r5: "ws \<noteq> [] \<longrightarrow> snd (hd ws) = END_DATE \<and> fst (fst (last ws)) = 733773"
    by auto
  from r have w: "windows_of (app2_loop api key w [] [] END_DATE) = [] @ ws"
    by (simp add: windows_of_def)
  show ?thesis
  proof (intro exI [of _ cs] exI [of _ ws] exI [of _ w'] conjI allI)
    show "app2_loop api key w [] [] END_DATE = Inr (cs, ws, w')" by (rule r)
    show "\<forall>x \<in> set ws. START_DATE \<le> fst x" by (rule r1)
    show "(\<Union>x \<in> set ws. {strftime_Ymd (fst x) .. strftime_Ymd (snd x)})
            = {strftime_Ymd START_DATE .. strftime_Ymd END_DATE}"
      using r2 by (simp add: strftime_Ymd_def START_DATE_eq)
    show "adjacent ws" by (rule r3)
    show "START_DATE \<le> END_DATE \<longrightarrow>
            ws \<noteq> [] \<and> snd (hd ws) = END_DATE
            \<and> strftime_Ymd (fst (last ws)) = strftime_Ymd START_DATE"
      using r4 r5 by (simp add: strftime_Ymd_def START_DATE_eq)
    show "windows_of (app2_loop api2 key2 w2 [] [] END_DATE) = ws" for api2 key2 w2
      using app2_loop_same_windows [OF assms w, of api2 key2 w2 "[]" "[]"] by simp
  qed
qed

theorem app2_windows_cover_floor_to_now_witness:
  "fst ((739923, 0) :: datetime) \<le> MAXORDINAL
   \<and> (\<exists>cs ws w'. app2_loop (empty_api :: (unit, nat) api) ''K'' () [] [] (739923, 0) = Inr (cs, ws, w')
         \<and> (\<Union>x \<in> set ws. {fst (fst x) .. fst (snd x)}) = {733773 .. 739923}
         \<and> snd (hd ws) = (739923, 0) \<and> fst (fst (last ws)) = 733773)"
proof -
  have h: "fst ((739923, 0) :: datetime) \<le> MAXORDINAL" by (simp add: MAXORDINAL_def)
  have s: "START_DATE \<le> (739923, 0)" by (simp add: START_DATE_le)
  from app2_windows_cover_floor_to_now [OF h, of "empty_api :: (unit, nat) api" "''K''" "()"] s h
  show ?thesis by (simp add: strftime_Ymd_def START_DATE_eq) blast
qed

text \<open>
  C5. Against the synthetic fetcher (candles for windows ending in 2015 or later, nothing
  before) the loop of app.py returns, for every valid start date; it fetches exactly
  \<open>windows_expected END_DATE\<close> windows, at most 2667 whatever the date.
\<close>

theorem app_synthetic_fetcher_bounded:
  assumes "fst END_DATE \<le> MAXORDINAL"
  shows "\<exists>rs ws w'.
           app_loop (synthetic_api c cs) key w [] [] END_DATE = Inr (rs, ws, w')
           \<and> length ws = windows_expected END_DATE
           \<and> length ws \<le> 2667"
proof -
  obtain rs ws w' where r: "app_loop (synthetic_api c cs) key w [] [] END_DATE = Inr (rs, ws, w')"
    using app_loop_total [OF assms, of "synthetic_api c cs" key w "[]" "[]"] by auto
  from app_loop_synthetic_count [OF r] windows_expected_le [OF assms] r
  show ?thesis by simp
qed

theorem app_synthetic_fetcher_bounded_witness:
  "fst ((739923, 0) :: datetime) \<le> MAXORDINAL
   \<and> (\<exists>rs ws w'. app_loop (synthetic_api (0::nat) []) ''K'' () [] [] (739923, 0) = Inr (rs, ws, w')
         \<and> length ws = 7)"
  using app_synthetic_fetcher_bounded [where END_DATE = "(739923, 0)" and c = "0::nat" and cs = "[]"
      and key = "''K''" and w = "()"]
  by (auto simp: MAXORDINAL_def windows_expected_def)

text \<open>
  C10. In app.py every window ends on the very datetime at which the window fetched
  before it starts. So a fetcher that never repeats a date within one answer can still
  put a date twice into the accumulated candles (the run from day 731300 does), and
  sorting alone leaves it twice; the per-symbol result has each date once because
  \<open>drop_duplicates\<close> removes the repetition.
\<close>

theorem app_windows_share_boundary_date:
  "(app_loop api key w [] [] END_DATE = Inr (cs, ws, w') \<longrightarrow> chained ws)
   \<and> (\<forall>w req. distinct (map Date (outcome_candles (fst (boundary_api w req)))))
   \<and> (\<exists>all_candles ws.
         app_loop boundary_api ''K'' () [] [] (731300, 0) = Inr (all_candles, ws, ())
         \<and> \<not> distinct (map Date all_candles)
         \<and> \<not> distinct (map Date (sort_values Date all_candles)))
   \<and> (app_process_single_stock pd api2 w2 END_DATE2 symbol isin = Inr (s, df) \<longrightarrow>
        distinct (map Date df))"
proof (intro conjI impI)
  assume "app_loop api key w [] [] END_DATE = Inr (cs, ws, w')"
  from app_loop_chained [OF this] show "chained ws" by simp
next
  show "\<forall>w req. distinct (map Date (outcome_candles (fst (boundary_api w req))))"
    by (simp add: boundary_api_def)
next
  show "\<exists>all_candles ws.
         app_loop boundary_api ''K'' () [] [] (731300, 0) = Inr (all_candles, ws, ())
         \<and> \<not> distinct (map Date all_candles)
         \<and> \<not> distinct (map Date (sort_values Date all_candles))"
    by (simp add: app_loop_boundary_run sort_values_def)
next
  assume "app_process_single_stock pd api2 w2 END_DATE2 symbol isin = Inr (s, df)"
  then show "distinct (map Date df)" by (rule app_process_single_stock_distinct)
qed

theorem app_windows_share_boundary_date_witness:
  "chained [((730205, 0), (731300, 0)), ((729110, 0), (730205, 0))]
   \<and> distinct (map Date [Candle ((729110, 0) :: datetime) (0::int) 0 0 0 (0::int) 0,
                          Candle (730205, 0) 0 0 0 0 0 0, Candle (731300, 0) 0 0 0 0 0 0])"
proof -
  have r: "app_process_single_stock plain_pandas boundary_api () (731300, 0) ''TCS'' ''INE467B01029''
             = Inr (''TCS'', [Candle (729110, 0) 0 0 0 0 0 0, Candle (730205, 0) 0 0 0 0 0 0,
                              Candle (731300, 0) 0 0 0 0 0 0])"
    by (simp add: app_process_single_stock_def app_loop_boundary_run app_dataframe_def
        formatting_def plain_pandas_def drop_duplicates_def sort_values_def)
  from app_windows_share_boundary_date
    [of boundary_api "''K''" "()" "(731300, 0)" _ "[((730205, 0), (731300, 0)), ((729110, 0), (730205, 0))]"
       "()" plain_pandas boundary_api "()" "(731300, 0)" "''TCS''" "''INE467B01029''" "''TCS''"
       "[Candle (729110, 0) 0 0 0 0 0 0, Candle (730205, 0) 0 0 0 0 0 0, Candle (731300, 0) 0 0 0 0 0 0]"]
    r app_loop_boundary_run [of "''K''"]
  show ?thesis by simp
qed

subsection \<open>Normalisation, aggregation and output\<close>

text \<open>
  C3. Whatever the batch of raw candles (any order, repeated dates), when the per-symbol
  result is built, in app.py and in app2.py alike, no two of its rows have the same date
  and its dates are in non-decreasing order; and it is built whenever every cell of the
  batch converts.
\<close>

theorem normalized_dates_unique_and_ascending:
  "(app_dataframe pd all_candles = Inr df \<longrightarrow> distinct (map Date df) \<and> sorted (map Date df))
   \<and> (app2_dataframe pd symbol all_candles = Inr df2 \<longrightarrow>
        distinct (map (\<lambda>row. Date (snd row)) df2) \<and> sorted (map (\<lambda>row. Date (snd row)) df2))
   \<and> ((\<forall>c \<in> set all_candles. parses pd c) \<longrightarrow>
        (\<exists>df. app_dataframe pd all_candles = Inr df)
        \<and> (\<exists>df2. app2_dataframe pd symbol all_candles = Inr df2))"
proof (intro conjI impI)
  assume "app_dataframe pd all_candles = Inr df"
  then show "distinct (map Date df)" "sorted (map Date df)"
    by (auto simp: app_dataframe_def normalized_sorted_distinct split: if_splits sum.splits)
next
  assume "app2_dataframe pd symbol all_candles = Inr df2"
  then show "distinct (map (\<lambda>row. Date (snd row)) df2)" "sorted (map (\<lambda>row. Date (snd row)) df2)"
    by (auto simp: app2_dataframe_def comp_def normalized_sorted_distinct
        split: if_splits sum.splits)
next
  assume "\<forall>c \<in> set all_candles. parses pd c"
  from formatting_returns [OF this]
  show "\<exists>df. app_dataframe pd all_candles = Inr df"
    "\<exists>df2. app2_dataframe pd symbol all_candles = Inr df2"
    by (auto simp: app_dataframe_def app2_dataframe_def)
qed

theorem normalized_dates_unique_and_ascending_witness:
  "app_dataframe plain_pandas
     [Candle (3::int) (0::int) 0 0 0 0 0, Candle 1 0 0 0 0 0 0, Candle 3 1 1 1 1 1 1]
     = Inr [Candle 1 0 0 0 0 0 0, Candle 3 0 0 0 0 0 0]
   \<and> distinct (map Date [Candle (1::int) (0::int) 0 0 0 (0::int) 0, Candle 3 0 0 0 0 0 0])
   \<and> sorted (map Date [Candle (1::int) (0::int) 0 0 0 (0::int) 0, Candle 3 0 0 0 0 0 0])"
proof -
  have e: "app_dataframe plain_pandas
     [Candle (3::int) (0::int) 0 0 0 0 0, Candle 1 0 0 0 0 0 0, Candle 3 1 1 1 1 1 1]
     = Inr [Candle 1 0 0 0 0 0 0, Candle 3 0 0 0 0 0 0]"
    by (simp add: app_dataframe_def formatting_def plain_pandas_def drop_duplicates_def
        sort_values_def)
  from normalized_dates_unique_and_ascending
    [of plain_pandas "[Candle (3::int) (0::int) 0 0 0 0 0, Candle 1 0 0 0 0 0 0, Candle 3 1 1 1 1 1 1]"
       "[Candle 1 0 0 0 0 0 0, Candle 3 0 0 0 0 0 0]"] e
  show ?thesis by simp
qed

text \<open>
  C6. The long-format table of app2.py holds the rows of all per-symbol results, none lost
  and none added, in ascending order of (symbol, date). For the results of B with dates
  2021-01-02, 2021-01-01 and of A with date 2021-01-01 the rows come out as
  (A, 2021-01-01), (B, 2021-01-01), (B, 2021-01-02); 2021-01-01 is day 737791.
\<close>

theorem app2_merge_sorted_by_symbol_and_date:
  "sorted (map (\<lambda>row. (fst row, Date (snd row))) (app2_merge all_data))
   \<and> mset (app2_merge all_data) = mset (concat all_data)
   \<and> map (\<lambda>row. (fst row, Date (snd row)))
        (app2_merge [[(''B'', Candle ((737792, 0) :: datetime) (0::int) 0 0 0 (0::int) 0),
                      (''B'', Candle (737791, 0) 0 0 0 0 0 0)],
                     [(''A'', Candle (737791, 0) 0 0 0 0 0 0)]])
       = [(''A'', (737791, 0)), (''B'', (737791, 0)), (''B'', (737792, 0))]"
  by (simp add: app2_merge_def sort_values_def)

text \<open>
  C7. When every fetch returns no candles, both programmes, for every roster and every
  order of completion, report each symbol as empty, print that no data was fetched, write
  no file and end normally. The save step of either programme does the same whenever
  nothing was collected, whatever the reason.
\<close>

theorem no_data_no_output_file:
  assumes "\<forall>w key s e. \<exists>w'. fetch_chunk api w key s e = Inr ([], w')"
    and "fst END_DATE \<le> MAXORDINAL"
  shows "app_main pd api client END_DATE excel_writer completed
           = (map (\<lambda>(symb, isin). NoDataFound symb) completed @ [NoDataFetched], Finished None)
         \<and> app2_main pd api client END_DATE to_csv completed
           = (map (\<lambda>(symb, isin). NoDataFound symb) completed @ [NoDataFetched], Finished None)
         \<and> app_save excel_writer [] = ([NoDataFetched], Finished None)
         \<and> app2_save to_csv [] = ([NoDataFetched], Finished None)"
proof -
  have m1: "map (\<lambda>(symb, isin). (symb, app_process_single_stock pd api (client symb) END_DATE symb isin))
          completed = map (\<lambda>(symb, isin). (symb, Inr (symb, []))) completed"
    by (simp add: app_process_single_stock_no_data [OF assms])
  have m2: "map (\<lambda>(symb, isin). (symb, app2_process_single_stock pd api (client symb) END_DATE symb isin))
          completed = map (\<lambda>(symb, isin). (symb, Inr (symb, []))) completed"
    by (simp add: app2_process_single_stock_no_data [OF assms])
  show ?thesis
    by (simp add: app_main_def app2_main_def m1 m2 app_collect_no_data app2_collect_no_data
        app_save_def app2_save_def)
qed

theorem no_data_no_output_file_witness:
  "app_main (plain_pandas :: (int, int, int, int, int) pandas) empty_api (\<lambda>symb. ()) (739923, 0)
      (\<lambda>sheets. None) [(''TCS'', ''INE467B01029''), (''INFY'', ''INE009A01021'')]
     = ([NoDataFound ''TCS'', NoDataFound ''INFY'', NoDataFetched], Finished None)
   \<and> app2_main (plain_pandas :: (int, int, int, int, int) pandas) empty_api (\<lambda>symb. ()) (739923, 0)
      (\<lambda>rows. None) [(''TCS'', ''INE467B01029''), (''INFY'', ''INE009A01021'')]
     = ([NoDataFound ''TCS'', NoDataFound ''INFY'', NoDataFetched], Finished None)"
proof -
  have f: "\<forall>w key s e. \<exists>w'.
             fetch_chunk (empty_api :: (unit, (int, int, int) candle) api) w key s e = Inr ([], w')"
    by (simp add: fetch_chunk_def fetch_chunk_try_def window_request_def empty_api_def)
  have h: "fst ((739923, 0) :: datetime) \<le> MAXORDINAL" by (simp add: MAXORDINAL_def)
  from no_data_no_output_file [OF f h, of "plain_pandas :: (int, int, int, int, int) pandas"
      "\<lambda>symb. ()" "\<lambda>sheets. None"
      "[(''TCS'', ''INE467B01029''), (''INFY'', ''INE009A01021'')]" "\<lambda>rows. None"]
  show ?thesis by simp
qed

text \<open>
  C8, as stated, fails: two different symbols, both longer than 30 characters and both
  containing \<open>|\<close>, \<open>:\<close> and \<open>/\<close>, get the same sheet name.
\<close>

theorem safe_name_collision:
  "''NSE|EQ:RELIANCE/INDUSTRIES-LIMITED-SERIES-A'' \<noteq> ''NSE|EQ:RELIANCE/INDUSTRIES-LIMITED-SERIES-B''
   \<and> 30 < length ''NSE|EQ:RELIANCE/INDUSTRIES-LIMITED-SERIES-A''
   \<and> 30 < length ''NSE|EQ:RELIANCE/INDUSTRIES-LIMITED-SERIES-B''
   \<and> {CHR ''|'', CHR '':'', CHR ''/''} \<subseteq> set ''NSE|EQ:RELIANCE/INDUSTRIES-LIMITED-SERIES-A''
   \<and> {CHR ''|'', CHR '':'', CHR ''/''} \<subseteq> set ''NSE|EQ:RELIANCE/INDUSTRIES-LIMITED-SERIES-B''
   \<and> safe_name ''NSE|EQ:RELIANCE/INDUSTRIES-LIMITED-SERIES-A''
       = safe_name ''NSE|EQ:RELIANCE/INDUSTRIES-LIMITED-SERIES-B''"
  by (simp add: safe_name_def replace_with_empty_def)

text \<open>
  C8, amended. The sheet name of a symbol is the first 30 characters of the symbol without
  \<open>|\<close>, \<open>:\<close> and \<open>/\<close>: it has at most 30 characters and none of the three, and two
  symbols get the same sheet name exactly when those first 30 remaining characters agree.
\<close>

theorem safe_name_stripped_and_truncated:
  "safe_name symbol = take 30 (stripped symbol)
   \<and> length (safe_name symbol) \<le> 30
   \<and> set (safe_name symbol) \<inter> {CHR ''|'', CHR '':'', CHR ''/''} = {}
   \<and> (safe_name a = safe_name b \<longleftrightarrow> take 30 (stripped a) = take 30 (stripped b))"
proof -
  have "filter (\<lambda>x. x \<noteq> CHR ''/'') (filter (\<lambda>x. x \<noteq> CHR '':'') (filter (\<lambda>x. x \<noteq> CHR ''|'') s))
          = stripped s" for s
    unfolding stripped_def filter_filter by (rule filter_cong) auto
  then have e: "safe_name s = take 30 (stripped s)" for s
    by (simp add: safe_name_def replace_with_empty_def)
  have "set (take 30 (stripped symbol)) \<subseteq> set (stripped symbol)" by (rule set_take_subset)
  then have "set (take 30 (stripped symbol)) \<inter> {CHR ''|'', CHR '':'', CHR ''/''} = {}"
    by (auto simp: stripped_def)
  then show ?thesis by (simp add: e)
qed

subsection \<open>Chunk fetcher and instrument key\<close>

text \<open>
  C4. Whatever the API call does (raise, answer without data, answer without candles,
  answer with candles), \<open>fetch_chunk\<close> returns a list and raises nothing; the list is the
  candles of the answer, and it is empty for every outcome that is not a list of candles.
\<close>

theorem fetch_chunk_never_raises:
  "fetch_chunk api w key start_date end_date =
     Inr (outcome_candles (fst (api w (window_request key start_date end_date))),
          snd (api w (window_request key start_date end_date)))"
  by (cases "api w (window_request key start_date end_date)";
      cases "fst (api w (window_request key start_date end_date))")
     (auto simp: fetch_chunk_def fetch_chunk_try_def window_request_def)

text \<open>
  C9. The key is the fixed exchange prefix followed by the trimmed identifier, a total
  function of the identifier: identifiers with equal trimmed text get equal keys, and
  identifiers with different trimmed text get different keys.
\<close>

theorem get_instrument_key_injective:
  "get_instrument_key a = EXCHANGE_PREFIX @ strip a
   \<and> (strip a = strip b \<longrightarrow> get_instrument_key a = get_instrument_key b)
   \<and> (strip a \<noteq> strip b \<longrightarrow> get_instrument_key a \<noteq> get_instrument_key b)"
  by (simp add: get_instrument_key_def)

theorem get_instrument_key_injective_witness:
  "get_instrument_key '' INE002A01018 '' = ''NSE_EQ|INE002A01018''
   \<and> get_instrument_key '' INE002A01018 '' = get_instrument_key ''INE002A01018''
   \<and> get_instrument_key ''INE002A01018'' \<noteq> get_instrument_key ''INE009A01021''
   \<and> get_instrument_key (CHR 0x85 # ''INE002A01018'' @ [CHR 0xA0]) = ''NSE_EQ|INE002A01018''
   \<and> get_instrument_key (''INE002A01018'' @ [CHR 0xA0]) = get_instrument_key ''INE002A01018''"
proof -
  have s1: "strip '' INE002A01018 '' = ''INE002A01018''"
    by (simp add: strip_def isspace_def)
  have s2: "strip ''INE002A01018'' = ''INE002A01018''"
    by (simp add: strip_def isspace_def)
  have s3: "strip ''INE009A01021'' = ''INE009A01021''"
    by (simp add: strip_def isspace_def)
  have s4: "strip (CHR 0x85 # ''INE002A01018'' @ [CHR 0xA0]) = ''INE002A01018''"
    by (simp add: strip_def isspace_def)
  have s5: "strip (''INE002A01018'' @ [CHR 0xA0]) = ''INE002A01018''"
    by (simp add: strip_def isspace_def)
  have c1: "get_instrument_key '' INE002A01018 '' = ''NSE_EQ|INE002A01018''"
    using get_instrument_key_injective [of "'' INE002A01018 ''" "''INE002A01018''"]
    unfolding s1 s2 by (simp add: EXCHANGE_PREFIX_def)
  have c2: "get_instrument_key '' INE002A01018 '' = get_instrument_key ''INE002A01018''"
    using get_instrument_key_injective [of "'' INE002A01018 ''" "''INE002A01018''"]
    unfolding s1 s2 by blast
  have c3: "get_instrument_key ''INE002A01018'' \<noteq> get_instrument_key ''INE009A01021''"
    using get_instrument_key_injective [of "''INE002A01018''" "''INE009A01021''"]
    unfolding s2 s3 by auto
  have c4: "get_instrument_key (CHR 0x85 # ''INE002A01018'' @ [CHR 0xA0]) = ''NSE_EQ|INE002A01018''"
    using get_instrument_key_injective [of "CHR 0x85 # ''INE002A01018'' @ [CHR 0xA0]" "''INE002A01018''"]
    unfolding s4 s2 by (simp add: EXCHANGE_PREFIX_def)
  have c5: "get_instrument_key (''INE002A01018'' @ [CHR 0xA0]) = get_instrument_key ''INE002A01018''"
    using get_instrument_key_injective [of "''INE002A01018'' @ [CHR 0xA0]" "''INE002A01018''"]
    unfolding s5 s2 by blast
  from c1 c2 c3 c4 c5 show ?thesis by (intro conjI)
qed

end
